theory Spec2Isabelle
  imports
    Main
    "HOL-Library.Char_ord"
    "HOL-Library.List_Lexorder"
    "HOL-Library.Product_Lexorder"
    "HOL-Library.Multiset"
begin

section \<open>The hospital database: rows, tables and the store\<close>

text \<open>
  The program keeps all of its state in one SQLite database whose schema is
  \<^verbatim>\<open>DDL_TABLES\<close> of \<^verbatim>\<open>hospital_app.py\<close>. Each table is a list of rows, a
  row a record with one field per column (\<open>notes_col\<close> for the column
  \<^verbatim>\<open>notes\<close>). A nullable column is an \<open>option\<close>, a column declared
  \<^verbatim>\<open>NOT NULL\<close> is not. Integers are \<open>int\<close>, texts are \<open>string\<close>. The
  fields of the three parent tables carry the alias letter the queries of the
  program use for the table (\<open>p\<close>, \<open>d\<close>, \<open>r\<close>), since \<open>full_name\<close>
  and the key columns occur in several tables.

  The store below is a database on which the \<^verbatim>\<open>CREATE ... IF NOT EXISTS\<close>
  statements have run; they change nothing when run again. Argument values are
  taken to fit SQLite's 64-bit integers, and the tables to stay below the
  largest rowid.
\<close>

record patient =
  p_patient_id :: int
  p_full_name :: string
  p_date_of_birth :: "string option"
  p_gender :: "string option"
  p_phone :: "string option"
  p_email :: "string option"

record doctor =
  d_doctor_id :: int
  d_full_name :: string
  d_specialization :: string

record room =
  r_room_id :: int
  r_room_number :: string
  r_room_type :: string

record appointment =
  appointment_id :: int
  patient_id :: int
  doctor_id :: int
  room_id :: "int option"
  start_time :: string
  end_time :: "string option"
  notes_col :: "string option"
  status :: string

record audit_entry =
  log_id :: int
  entity :: string
  action :: string
  details :: "string option"
  created_at :: "string option"

text \<open>
  Every table is \<^verbatim>\<open>AUTOINCREMENT\<close>: SQLite keeps, per table, the largest rowid
  the table ever held (table \<^verbatim>\<open>sqlite_sequence\<close>); the \<open>seq_\<close> fields are
  these counters.
\<close>

record store =
  patients :: "patient list"
  doctors :: "doctor list"
  rooms :: "room list"
  appointments :: "appointment list"
  audit_log :: "audit_entry list"
  seq_patients :: int
  seq_doctors :: int
  seq_rooms :: int
  seq_appointments :: int
  seq_audit :: int

definition empty_db :: store where
  "empty_db = \<lparr>patients = [], doctors = [], rooms = [], appointments = [], audit_log = [],
     seq_patients = 0, seq_doctors = 0, seq_rooms = 0, seq_appointments = 0, seq_audit = 0\<rparr>"

text \<open>
  What \<^verbatim>\<open>sqlite3\<close> raises as \<^verbatim>\<open>sqlite3.IntegrityError\<close>: a failed foreign key,
  a \<^verbatim>\<open>RAISE(ABORT, msg)\<close> of a trigger (with its message), a failed \<^verbatim>\<open>UNIQUE\<close>
  (with the column) and a failed \<^verbatim>\<open>CHECK\<close> (with the column).
\<close>

datatype sql_error =
    ForeignKeyFailed
  | TriggerAbort string
  | UniqueFailed string
  | CheckFailed string

text \<open>
  The rowid an \<^verbatim>\<open>AUTOINCREMENT\<close> table gives a new row: one more than the
  largest of the counter and the rowids present.
\<close>

definition next_rowid :: "int \<Rightarrow> int list \<Rightarrow> int" where
  "next_rowid seq ids = fold max ids seq + 1"

subsection \<open>Integers as text\<close>

text \<open>The decimal text SQLite's \<^verbatim>\<open>||\<close> makes of an integer.\<close>

definition digit_char :: "nat \<Rightarrow> char" where
  "digit_char d = char_of (48 + d)"

function digits :: "nat \<Rightarrow> string" where
  "digits n = (if n < 10 then [digit_char n] else digits (n div 10) @ [digit_char (n mod 10)])"
  by pat_completeness auto
termination
  by (relation "measure id") auto

declare digits.simps [simp del]

definition show_int :: "int \<Rightarrow> string" where
  "show_int i = (if i < 0 then CHR ''-'' # digits (nat (- i)) else digits (nat i))"

section \<open>Booking\<close>

text \<open>
  The two \<^verbatim>\<open>BEFORE INSERT\<close> triggers of \<^verbatim>\<open>DDL_TRIGGERS\<close>: the \<^verbatim>\<open>WHEN\<close>
  condition of each, over the rows present and the row about to be inserted.
  \<^verbatim>\<open>a.room_id = NEW.room_id\<close> is not true when either side is \<^verbatim>\<open>NULL\<close>.
\<close>

definition trg_no_double_book_doctor :: "appointment list \<Rightarrow> appointment \<Rightarrow> bool" where
  "trg_no_double_book_doctor appts new =
     (\<exists>a \<in> set appts. doctor_id a = doctor_id new \<and> start_time a = start_time new
        \<and> status a \<noteq> ''Cancelled'')"

definition trg_no_double_book_room :: "appointment list \<Rightarrow> appointment \<Rightarrow> bool" where
  "trg_no_double_book_room appts new =
     (room_id new \<noteq> None \<and>
      (\<exists>a \<in> set appts. room_id a = room_id new \<and> start_time a = start_time new
        \<and> status a \<noteq> ''Cancelled''))"

text \<open>
  The \<^verbatim>\<open>AFTER INSERT\<close> trigger \<^verbatim>\<open>trg_appointments_insert_log\<close>: one row into
  \<^verbatim>\<open>AuditLog\<close>, \<open>created_at\<close> the \<^verbatim>\<open>CURRENT_TIMESTAMP\<close> of the statement
  (\<open>now\<close>).
\<close>

definition log_details :: "appointment \<Rightarrow> string" where
  "log_details new =
     ''appointment_id='' @ show_int (appointment_id new) @
     '', patient_id='' @ show_int (patient_id new) @
     '', doctor_id='' @ show_int (doctor_id new) @
     '', start_time='' @ start_time new"

definition trg_appointments_insert_log :: "string \<Rightarrow> appointment \<Rightarrow> store \<Rightarrow> store" where
  "trg_appointments_insert_log now new s =
     (let lid = next_rowid (seq_audit s) (map log_id (audit_log s))
      in s\<lparr>audit_log := audit_log s @
              [\<lparr>log_id = lid, entity = ''Appointments'', action = ''INSERT'',
                details = Some (log_details new), created_at = Some now\<rparr>],
            seq_audit := lid\<rparr>)"

text \<open>
  The three foreign keys of \<^verbatim>\<open>Appointments\<close>, checked (as \<^verbatim>\<open>PRAGMA foreign_keys = ON\<close>
  makes SQLite do) when the statement ends.
\<close>

definition fk_violated :: "store \<Rightarrow> appointment \<Rightarrow> bool" where
  "fk_violated s new =
     (patient_id new \<notin> set (map p_patient_id (patients s)) \<or>
      doctor_id new \<notin> set (map d_doctor_id (doctors s)) \<or>
      (case room_id new of None \<Rightarrow> False
       | Some r \<Rightarrow> r \<notin> set (map r_room_id (rooms s))))"

text \<open>
  \<^verbatim>\<open>book_appointment\<close>: the single \<^verbatim>\<open>INSERT INTO Appointments\<close>, with the
  default status \<^verbatim>\<open>'Booked'\<close>. The \<^verbatim>\<open>BEFORE\<close> triggers run first, then the
  row is written and the \<^verbatim>\<open>AFTER\<close> trigger logs it, then the foreign keys are
  checked. An error aborts the statement, which undoes what it wrote; the function
  raises before \<^verbatim>\<open>commit\<close>, so the store is the one it started from. SQLite
  does not fix the order of two triggers of one event; the model takes them in
  the order of the source.
\<close>

definition book_appointment ::
  "store \<Rightarrow> string \<Rightarrow> int \<Rightarrow> int \<Rightarrow> string \<Rightarrow> string option \<Rightarrow> int option \<Rightarrow> string
     \<Rightarrow> (sql_error + int) \<times> store" where
  "book_appointment s now pid did st et rid nt =
     (let aid = next_rowid (seq_appointments s) (map appointment_id (appointments s));
          new = \<lparr>appointment_id = aid, patient_id = pid, doctor_id = did, room_id = rid,
                 start_time = st, end_time = et, notes_col = Some nt, status = ''Booked''\<rparr>
      in if trg_no_double_book_doctor (appointments s) new
           then (Inl (TriggerAbort ''Doctor already booked at this time''), s)
         else if trg_no_double_book_room (appointments s) new
           then (Inl (TriggerAbort ''Room already booked at this time''), s)
         else
           let s1 = s\<lparr>appointments := appointments s @ [new], seq_appointments := aid\<rparr>;
               s2 = trg_appointments_insert_log now new s1
           in if fk_violated s2 new then (Inl ForeignKeyFailed, s)
              else (Inr aid, s2))"

section \<open>Seeding\<close>

text \<open>
  \<^verbatim>\<open>SEED_SQL\<close>: three \<^verbatim>\<open>INSERT OR IGNORE\<close> statements with explicit keys. A row
  that would break the primary key, a \<^verbatim>\<open>UNIQUE\<close> or a \<^verbatim>\<open>CHECK\<close> is skipped and
  the statement goes on with the next row; a row that is written raises the
  table's counter to its key.
\<close>

definition gender_check :: "string option \<Rightarrow> bool" where
  "gender_check g = (case g of None \<Rightarrow> True | Some x \<Rightarrow> x \<in> {''Male'', ''Female'', ''Other''})"

definition email_taken :: "store \<Rightarrow> string option \<Rightarrow> bool" where
  "email_taken s e = (e \<noteq> None \<and> e \<in> set (map p_email (patients s)))"

definition patient_conflict :: "patient \<Rightarrow> store \<Rightarrow> bool" where
  "patient_conflict row s =
     (\<not> gender_check (p_gender row)
      \<or> p_patient_id row \<in> set (map p_patient_id (patients s))
      \<or> email_taken s (p_email row))"

definition insert_or_ignore_patient :: "patient \<Rightarrow> store \<Rightarrow> store" where
  "insert_or_ignore_patient row s =
     (if patient_conflict row s then s
      else s\<lparr>patients := patients s @ [row],
             seq_patients := max (seq_patients s) (p_patient_id row)\<rparr>)"

definition doctor_conflict :: "doctor \<Rightarrow> store \<Rightarrow> bool" where
  "doctor_conflict row s = (d_doctor_id row \<in> set (map d_doctor_id (doctors s)))"

definition insert_or_ignore_doctor :: "doctor \<Rightarrow> store \<Rightarrow> store" where
  "insert_or_ignore_doctor row s =
     (if doctor_conflict row s then s
      else s\<lparr>doctors := doctors s @ [row],
             seq_doctors := max (seq_doctors s) (d_doctor_id row)\<rparr>)"

definition room_conflict :: "room \<Rightarrow> store \<Rightarrow> bool" where
  "room_conflict row s =
     (r_room_id row \<in> set (map r_room_id (rooms s))
      \<or> r_room_number row \<in> set (map r_room_number (rooms s)))"

definition insert_or_ignore_room :: "room \<Rightarrow> store \<Rightarrow> store" where
  "insert_or_ignore_room row s =
     (if room_conflict row s then s
      else s\<lparr>rooms := rooms s @ [row],
             seq_rooms := max (seq_rooms s) (r_room_id row)\<rparr>)"

definition seed_patients :: "patient list" where
  "seed_patients =
     [\<lparr>p_patient_id = 1, p_full_name = ''Alice Johnson'', p_date_of_birth = Some ''1995-04-10'',
       p_gender = Some ''Female'', p_phone = Some ''0771234567'',
       p_email = Some ''alice@example.com''\<rparr>,
      \<lparr>p_patient_id = 2, p_full_name = ''Bob Perera'', p_date_of_birth = Some ''1989-09-12'',
       p_gender = Some ''Male'', p_phone = Some ''0717654321'',
       p_email = Some ''bob@example.com''\<rparr>]"

definition seed_doctors :: "doctor list" where
  "seed_doctors =
     [\<lparr>d_doctor_id = 1, d_full_name = ''Dr. Nimal Fernando'', d_specialization = ''Cardiology''\<rparr>,
      \<lparr>d_doctor_id = 2, d_full_name = ''Dr. Isuri Ranasinghe'',
       d_specialization = ''Dermatology''\<rparr>]"

definition seed_rooms :: "room list" where
  "seed_rooms =
     [\<lparr>r_room_id = 1, r_room_number = ''C101'', r_room_type = ''Consultation''\<rparr>,
      \<lparr>r_room_id = 2, r_room_number = ''C102'', r_room_type = ''Consultation''\<rparr>,
      \<lparr>r_room_id = 3, r_room_number = ''W201'', r_room_type = ''Ward''\<rparr>]"

text \<open>
  \<^verbatim>\<open>init_db\<close>: the tables, indexes and triggers (nothing to do on a store that
  has them), then the three seed statements in their order.
\<close>

definition init_db :: "store \<Rightarrow> store" where
  "init_db s =
     fold insert_or_ignore_room seed_rooms
       (fold insert_or_ignore_doctor seed_doctors
          (fold insert_or_ignore_patient seed_patients s))"

section \<open>Patients, doctors and rooms\<close>

text \<open>
  Python's \<^verbatim>\<open>str.strip()\<close>. A \<open>string\<close> is the list of the code points of the
  Python text, for texts of code points below 256; the white space among them is
  9 to 13, 28 to 32, 133 and 160.
\<close>

definition is_space :: "char \<Rightarrow> bool" where
  "is_space c = ((of_char c :: nat) \<in> {9, 10, 11, 12, 13, 28, 29, 30, 31, 32, 133, 160})"

definition strip :: "string \<Rightarrow> string" where
  "strip x = rev (dropWhile is_space (rev (dropWhile is_space x)))"

text \<open>What a route handler tells the user (its \<^verbatim>\<open>flash\<close>).\<close>

datatype notice =
    Full_name_required
  | Patient_added
  | Could_not_add_patient sql_error
  | Doctor_fields_required
  | Doctor_added

text \<open>
  The \<^verbatim>\<open>INSERT INTO Patients\<close> of \<^verbatim>\<open>patient_new\<close>: SQLite checks the
  \<^verbatim>\<open>CHECK\<close> on \<open>gender\<close> before the \<^verbatim>\<open>UNIQUE\<close> on \<open>email\<close>; a \<^verbatim>\<open>NULL\<close>
  passes both.
\<close>

definition insert_patient ::
  "store \<Rightarrow> string \<Rightarrow> string option \<Rightarrow> string option \<Rightarrow> string option \<Rightarrow> string option
     \<Rightarrow> (sql_error + int) \<times> store" where
  "insert_patient s name dob g ph e =
     (if \<not> gender_check g then (Inl (CheckFailed ''gender''), s)
      else if email_taken s e then (Inl (UniqueFailed ''Patients.email''), s)
      else
        let pid = next_rowid (seq_patients s) (map p_patient_id (patients s))
        in (Inr pid,
            s\<lparr>patients := patients s @
                 [\<lparr>p_patient_id = pid, p_full_name = name, p_date_of_birth = dob,
                   p_gender = g, p_phone = ph, p_email = e\<rparr>],
              seq_patients := pid\<rparr>))"

text \<open>
  \<^verbatim>\<open>patient_new\<close> (the \<^verbatim>\<open>POST\<close> branch). The five form fields arrive as texts,
  the empty text standing for a field left out, and are passed to the statement
  as they are after \<^verbatim>\<open>strip\<close>.
\<close>

definition patient_new ::
  "store \<Rightarrow> string \<Rightarrow> string \<Rightarrow> string \<Rightarrow> string \<Rightarrow> string \<Rightarrow> notice \<times> store" where
  "patient_new s full_name dob gender phone email =
     (if strip full_name = [] then (Full_name_required, s)
      else
        case insert_patient s (strip full_name) (Some (strip dob)) (Some (strip gender))
               (Some (strip phone)) (Some (strip email)) of
          (Inl e, s') \<Rightarrow> (Could_not_add_patient e, s')
        | (Inr pid, s') \<Rightarrow> (Patient_added, s'))"

text \<open>
  \<^verbatim>\<open>patient_delete\<close> and \<^verbatim>\<open>doctor_delete\<close>: one \<^verbatim>\<open>DELETE\<close> by key. When it
  removes a row, \<^verbatim>\<open>ON DELETE CASCADE\<close> removes, in the same statement, the
  appointments that point to it.
\<close>

definition patient_delete :: "store \<Rightarrow> int \<Rightarrow> store" where
  "patient_delete s pid =
     (if pid \<in> set (map p_patient_id (patients s))
      then s\<lparr>patients := filter (\<lambda>p. p_patient_id p \<noteq> pid) (patients s),
             appointments := filter (\<lambda>a. patient_id a \<noteq> pid) (appointments s)\<rparr>
      else s)"

definition doctor_delete :: "store \<Rightarrow> int \<Rightarrow> store" where
  "doctor_delete s did =
     (if did \<in> set (map d_doctor_id (doctors s))
      then s\<lparr>doctors := filter (\<lambda>d. d_doctor_id d \<noteq> did) (doctors s),
             appointments := filter (\<lambda>a. doctor_id a \<noteq> did) (appointments s)\<rparr>
      else s)"

text \<open>\<^verbatim>\<open>doctor_new\<close> (the \<^verbatim>\<open>POST\<close> branch); its \<^verbatim>\<open>INSERT\<close> cannot fail.\<close>

definition doctor_new :: "store \<Rightarrow> string \<Rightarrow> string \<Rightarrow> notice \<times> store" where
  "doctor_new s full_name specialization =
     (if strip full_name = [] \<or> strip specialization = [] then (Doctor_fields_required, s)
      else
        let did = next_rowid (seq_doctors s) (map d_doctor_id (doctors s))
        in (Doctor_added,
            s\<lparr>doctors := doctors s @
                 [\<lparr>d_doctor_id = did, d_full_name = strip full_name,
                   d_specialization = strip specialization\<rparr>],
              seq_doctors := did\<rparr>))"

text \<open>
  Modelled from the spec: \<open>createRoom\<close>, which the sources do not contain. It is the
  statement \<^verbatim>\<open>INSERT INTO Rooms(room_number, room_type)\<close> on the table of
  \<^verbatim>\<open>DDL_TABLES\<close>, whose \<open>room_number\<close> is \<^verbatim>\<open>UNIQUE\<close>.
\<close>

definition create_room :: "store \<Rightarrow> string \<Rightarrow> string \<Rightarrow> (sql_error + int) \<times> store" where
  "create_room s number type =
     (if number \<in> set (map r_room_number (rooms s))
      then (Inl (UniqueFailed ''Rooms.room_number''), s)
      else
        let rid = next_rowid (seq_rooms s) (map r_room_id (rooms s))
        in (Inr rid,
            s\<lparr>rooms := rooms s @ [\<lparr>r_room_id = rid, r_room_number = number, r_room_type = type\<rparr>],
              seq_rooms := rid\<rparr>))"

text \<open>
  Modelled from the spec: \<open>deleteRoom\<close>, which the sources do not contain. It is the
  statement \<^verbatim>\<open>DELETE FROM Rooms WHERE room_id = ?\<close> on the schema of
  \<^verbatim>\<open>DDL_TABLES\<close>, as \<^verbatim>\<open>patient_delete\<close> is for patients: when it removes a
  row, \<^verbatim>\<open>ON DELETE SET NULL\<close> clears, in the same statement, the \<open>room_id\<close> of
  the appointments that point to it.
\<close>

definition set_null_room :: "int \<Rightarrow> appointment \<Rightarrow> appointment" where
  "set_null_room rid a = (if room_id a = Some rid then a\<lparr>room_id := None\<rparr> else a)"

definition delete_room :: "store \<Rightarrow> int \<Rightarrow> store" where
  "delete_room s rid =
     (if rid \<in> set (map r_room_id (rooms s))
      then s\<lparr>rooms := filter (\<lambda>r. r_room_id r \<noteq> rid) (rooms s),
             appointments := map (set_null_room rid) (appointments s)\<rparr>
      else s)"

section \<open>Reports\<close>

text \<open>
  \<^verbatim>\<open>report_appointments_per_doctor\<close> (the \<open>per_doc\<close> query of \<^verbatim>\<open>reports\<close> is
  the same statement): the \<^verbatim>\<open>LEFT JOIN\<close> grouped by the doctor's key gives one
  row per doctor, \<^verbatim>\<open>COUNT(a.appointment_id)\<close> the number of joined appointments;
  \<^verbatim>\<open>ORDER BY total DESC, doctor ASC\<close> sorts by the count, larger first, then
  by the name in SQLite's order of texts.
\<close>

definition doctor_row :: "store \<Rightarrow> doctor \<Rightarrow> string \<times> int" where
  "doctor_row s d =
     (d_full_name d,
      int (length (filter (\<lambda>a. d_doctor_id d = doctor_id a \<and> status a \<noteq> ''Cancelled'')
                     (appointments s))))"

definition report_appointments_per_doctor :: "store \<Rightarrow> (string \<times> int) list" where
  "report_appointments_per_doctor s =
     sort_key (\<lambda>(doctor, total). (- total, doctor)) (map (doctor_row s) (doctors s))"

section \<open>Runs of the program\<close>

text \<open>
  The operations that write to the store, and the store after a sequence of
  them, from the empty database. A failed operation leaves the store as it was.
  The handler \<^verbatim>\<open>book\<close> of \<^verbatim>\<open>app.py\<close> runs the statement of
  \<^verbatim>\<open>book_appointment\<close>, so \<open>Book\<close> stands for both.
\<close>

datatype op =
    Init_db
  | Book string int int string "string option" "int option" string
  | Patient_new string string string string string
  | Patient_delete int
  | Doctor_new string string
  | Doctor_delete int
  | Create_room string string
  | Delete_room int

fun step :: "store \<Rightarrow> op \<Rightarrow> store" where
  "step s Init_db = init_db s"
| "step s (Book now pid did st et rid nt) = snd (book_appointment s now pid did st et rid nt)"
| "step s (Patient_new n dob g ph e) = snd (patient_new s n dob g ph e)"
| "step s (Patient_delete pid) = patient_delete s pid"
| "step s (Doctor_new n sp) = snd (doctor_new s n sp)"
| "step s (Doctor_delete did) = doctor_delete s did"
| "step s (Create_room n t) = snd (create_room s n t)"
| "step s (Delete_room rid) = delete_room s rid"

definition run :: "op list \<Rightarrow> store" where
  "run ops = foldl step empty_db ops"

text \<open>Whether an operation is a booking that succeeds, and how many of a run do.\<close>

fun books :: "store \<Rightarrow> op \<Rightarrow> bool" where
  "books s (Book now pid did st et rid nt) =
     (case fst (book_appointment s now pid did st et rid nt) of Inl _ \<Rightarrow> False | Inr _ \<Rightarrow> True)"
| "books s _ = False"

fun bookings_made :: "store \<Rightarrow> op list \<Rightarrow> nat" where
  "bookings_made s [] = 0"
| "bookings_made s (x # xs) = (if books s x then 1 else 0) + bookings_made (step s x) xs"

section \<open>What the claims speak of\<close>

text \<open>
  Two appointments double-book a doctor (a room) when neither is cancelled and
  they have the doctor (the room, not \<^verbatim>\<open>NULL\<close>) and the start time in common.
\<close>

definition doctor_clash :: "appointment \<Rightarrow> appointment \<Rightarrow> bool" where
  "doctor_clash a b =
     (doctor_id a = doctor_id b \<and> start_time a = start_time b
      \<and> status a \<noteq> ''Cancelled'' \<and> status b \<noteq> ''Cancelled'')"

definition room_clash :: "appointment \<Rightarrow> appointment \<Rightarrow> bool" where
  "room_clash a b =
     (room_id a \<noteq> None \<and> room_id a = room_id b \<and> start_time a = start_time b
      \<and> status a \<noteq> ''Cancelled'' \<and> status b \<noteq> ''Cancelled'')"

definition no_double_booking :: "store \<Rightarrow> bool" where
  "no_double_booking s =
     sorted_wrt (\<lambda>a b. \<not> doctor_clash a b \<and> \<not> room_clash a b) (appointments s)"

text \<open>Concrete runs used to exercise the theorems.\<close>

definition two_bookings :: "op list" where
  "two_bookings =
     [Init_db,
      Book ''2025-08-01 10:00:00'' 1 1 ''2025-08-30 09:00'' None (Some 1) ''Initial consultation'',
      Book ''2025-08-01 10:05:00'' 2 2 ''2025-08-30 09:00'' None (Some 2) []]"

text \<open>
  The conditions of a booking, in the words of the claims: every appointment
  present with this doctor (this room, when one is given) and start time is
  cancelled; the patient, the doctor and the room (when one is given) exist.
\<close>

definition doctor_free :: "store \<Rightarrow> int \<Rightarrow> string \<Rightarrow> bool" where
  "doctor_free s did st =
     (\<forall>a \<in> set (appointments s).
        doctor_id a = did \<and> start_time a = st \<longrightarrow> status a = ''Cancelled'')"

definition room_free :: "store \<Rightarrow> int option \<Rightarrow> string \<Rightarrow> bool" where
  "room_free s rid st =
     (\<forall>a \<in> set (appointments s).
        rid \<noteq> None \<and> room_id a = rid \<and> start_time a = st \<longrightarrow> status a = ''Cancelled'')"

definition refs_exist :: "store \<Rightarrow> int \<Rightarrow> int \<Rightarrow> int option \<Rightarrow> bool" where
  "refs_exist s pid did rid =
     (pid \<in> set (map p_patient_id (patients s)) \<and>
      did \<in> set (map d_doctor_id (doctors s)) \<and>
      (case rid of None \<Rightarrow> True | Some r \<Rightarrow> r \<in> set (map r_room_id (rooms s))))"

text \<open>The row a booking writes.\<close>

definition booked_row ::
  "int \<Rightarrow> int \<Rightarrow> int \<Rightarrow> string \<Rightarrow> string option \<Rightarrow> int option \<Rightarrow> string \<Rightarrow> appointment" where
  "booked_row aid pid did st et rid nt =
     \<lparr>appointment_id = aid, patient_id = pid, doctor_id = did, room_id = rid,
      start_time = st, end_time = et, notes_col = Some nt, status = ''Booked''\<rparr>"

text \<open>The audit entries the claims count, and the operations that are bookings.\<close>

definition is_appointment_insert :: "audit_entry \<Rightarrow> bool" where
  "is_appointment_insert e = (entity e = ''Appointments'' \<and> action e = ''INSERT'')"

fun is_booking :: "op \<Rightarrow> bool" where
  "is_booking (Book now pid did st et rid nt) = True"
| "is_booking _ = False"

text \<open>
  More concrete stores: the seeded database with one booking, and the same with
  that booking cancelled (no operation of the program cancels; the status is set
  as an \<^verbatim>\<open>UPDATE\<close> from outside would).
\<close>

definition one_booking :: "op list" where
  "one_booking =
     [Init_db,
      Book ''2025-08-01 10:00:00'' 1 1 ''2025-08-30 09:00'' None (Some 1) ''Initial consultation'']"

definition cancelled_slot :: store where
  "cancelled_slot =
     (run one_booking)\<lparr>appointments :=
        map (\<lambda>a. a\<lparr>status := ''Cancelled''\<rparr>) (appointments (run one_booking))\<rparr>"

text \<open>
  Referential integrity, which SQLite keeps with \<^verbatim>\<open>PRAGMA foreign_keys = ON\<close>: every
  appointment points to a patient and a doctor that exist, and to a room that
  exists or to none.
\<close>

definition fk_ok :: "store \<Rightarrow> bool" where
  "fk_ok s = (\<forall>a \<in> set (appointments s). \<not> fk_violated s a)"

text \<open>
  A run for the report: a third doctor with no appointment, and one booking for
  each of the two seeded doctors.
\<close>

definition report_run :: "op list" where
  "report_run =
     [Init_db,
      Doctor_new ''Dr. Amal Silva'' ''ENT'',
      Book ''2025-08-01 10:00:00'' 1 1 ''2025-08-30 09:00'' None (Some 1) ''Initial consultation'',
      Book ''2025-08-01 10:05:00'' 2 2 ''2025-08-30 09:00'' None (Some 2) []]"

section \<open>The appointments table under each operation\<close>

lemma appointments_insert_log [simp]:
  "appointments (trg_appointments_insert_log now new s) = appointments s"
  by (simp add: trg_appointments_insert_log_def Let_def)

lemma appointments_insert_or_ignore_patient [simp]:
  "appointments (insert_or_ignore_patient row s) = appointments s"
  by (simp add: insert_or_ignore_patient_def)

lemma appointments_insert_or_ignore_doctor [simp]:
  "appointments (insert_or_ignore_doctor row s) = appointments s"
  by (simp add: insert_or_ignore_doctor_def)

lemma appointments_insert_or_ignore_room [simp]:
  "appointments (insert_or_ignore_room row s) = appointments s"
  by (simp add: insert_or_ignore_room_def)

lemma appointments_init_db [simp]: "appointments (init_db s) = appointments s"
  by (simp add: init_db_def seed_patients_def seed_doctors_def seed_rooms_def)

lemma appointments_patient_new [simp]:
  "appointments (snd (patient_new s n dob g ph e)) = appointments s"
  by (simp add: patient_new_def insert_patient_def Let_def)

lemma appointments_doctor_new [simp]:
  "appointments (snd (doctor_new s n sp)) = appointments s"
  by (simp add: doctor_new_def Let_def)

lemma appointments_create_room [simp]:
  "appointments (snd (create_room s n t)) = appointments s"
  by (simp add: create_room_def Let_def)

section \<open>No double booking\<close>

lemma no_double_booking_book:
  assumes "no_double_booking s"
  shows "no_double_booking (snd (book_appointment s now pid did st et rid nt))"
proof -
  let ?new = "\<lparr>appointment_id =
        next_rowid (seq_appointments s) (map appointment_id (appointments s)),
      patient_id = pid, doctor_id = did, room_id = rid,
      start_time = st, end_time = et, notes_col = Some nt, status = ''Booked''\<rparr>"
  have "\<forall>a \<in> set (appointments s). \<not> doctor_clash a ?new \<and> \<not> room_clash a ?new"
    if "\<not> trg_no_double_book_doctor (appointments s) ?new"
      and "\<not> trg_no_double_book_room (appointments s) ?new"
    using that
    by (auto simp: trg_no_double_book_doctor_def trg_no_double_book_room_def
        doctor_clash_def room_clash_def)
  with assms show ?thesis
    by (simp add: book_appointment_def Let_def no_double_booking_def sorted_wrt_append)
qed

lemma no_double_booking_patient_delete:
  "no_double_booking s \<Longrightarrow> no_double_booking (patient_delete s pid)"
  by (simp add: no_double_booking_def patient_delete_def sorted_wrt_filter)

lemma no_double_booking_doctor_delete:
  "no_double_booking s \<Longrightarrow> no_double_booking (doctor_delete s did)"
  by (simp add: no_double_booking_def doctor_delete_def sorted_wrt_filter)

lemma clash_set_null_room:
  "\<not> doctor_clash a b \<and> \<not> room_clash a b \<Longrightarrow>
   \<not> doctor_clash (set_null_room rid a) (set_null_room rid b)
   \<and> \<not> room_clash (set_null_room rid a) (set_null_room rid b)"
  by (auto simp: doctor_clash_def room_clash_def set_null_room_def)

lemma no_double_booking_delete_room:
  assumes "no_double_booking s"
  shows "no_double_booking (delete_room s rid)"
proof (cases "rid \<in> set (map r_room_id (rooms s))")
  case False
  with assms show ?thesis by (simp add: delete_room_def)
next
  case True
  have "sorted_wrt (\<lambda>a b. \<not> doctor_clash (set_null_room rid a) (set_null_room rid b)
                       \<and> \<not> room_clash (set_null_room rid a) (set_null_room rid b))
               (appointments s)"
    using assms clash_set_null_room unfolding no_double_booking_def
    by (rule_tac sorted_wrt_mono_rel[rotated]) blast+
  with True show ?thesis
    by (simp add: delete_room_def no_double_booking_def sorted_wrt_map)
qed

lemma no_double_booking_step: "no_double_booking s \<Longrightarrow> no_double_booking (step s x)"
  by (cases x)
    (simp_all add: no_double_booking_book no_double_booking_patient_delete
      no_double_booking_doctor_delete no_double_booking_delete_room,
     simp_all add: no_double_booking_def)

lemma no_double_booking_foldl:
  "no_double_booking s \<Longrightarrow> no_double_booking (foldl step s ops)"
  by (induction ops arbitrary: s) (simp_all add: no_double_booking_step)

text \<open>
  Claim C1. In the store after any sequence of the operations (seeding, booking,
  creating and deleting patients, doctors and rooms) from the empty database, no
  two appointments, neither cancelled, have the same doctor and start time, and
  no two, neither cancelled, have the same room (not \<^verbatim>\<open>NULL\<close>) and start time.
\<close>

theorem no_double_booking_reachable:
  assumes "i < j" and "j < length (appointments (run ops))"
  shows "\<not> doctor_clash (appointments (run ops) ! i) (appointments (run ops) ! j)
       \<and> \<not> room_clash (appointments (run ops) ! i) (appointments (run ops) ! j)"
proof -
  have "no_double_booking empty_db"
    by (simp add: no_double_booking_def empty_db_def)
  then have "no_double_booking (run ops)"
    unfolding run_def by (rule no_double_booking_foldl)
  with assms show ?thesis
    by (simp add: no_double_booking_def sorted_wrt_iff_nth_less)
qed

theorem no_double_booking_reachable_witness:
  "(0::nat) < 1 \<and> 1 < length (appointments (run two_bookings))
   \<and> \<not> doctor_clash (appointments (run two_bookings) ! 0) (appointments (run two_bookings) ! 1)
   \<and> \<not> room_clash (appointments (run two_bookings) ! 0) (appointments (run two_bookings) ! 1)"
proof -
  have len: "1 < length (appointments (run two_bookings))"
    by code_simp
  from no_double_booking_reachable [of 0 1 two_bookings] len show ?thesis
    by simp
qed

section \<open>What a booking does\<close>

lemma trg_doctor_iff:
  "doctor_id new = did \<Longrightarrow> start_time new = st \<Longrightarrow>
   trg_no_double_book_doctor (appointments s) new \<longleftrightarrow> \<not> doctor_free s did st"
  by (auto simp: trg_no_double_book_doctor_def doctor_free_def)

lemma trg_room_iff:
  "room_id new = rid \<Longrightarrow> start_time new = st \<Longrightarrow>
   trg_no_double_book_room (appointments s) new \<longleftrightarrow> \<not> room_free s rid st"
  by (fastforce simp: trg_no_double_book_room_def room_free_def)

lemma fk_violated_iff:
  "patient_id new = pid \<Longrightarrow> doctor_id new = did \<Longrightarrow> room_id new = rid \<Longrightarrow>
   patients s' = patients s \<Longrightarrow> doctors s' = doctors s \<Longrightarrow> rooms s' = rooms s \<Longrightarrow>
   fk_violated s' new \<longleftrightarrow> \<not> refs_exist s pid did rid"
  by (auto simp: fk_violated_def refs_exist_def split: option.splits)

lemma book_appointment_cases:
  "book_appointment s now pid did st et rid nt =
     (let aid = next_rowid (seq_appointments s) (map appointment_id (appointments s));
          new = booked_row aid pid did st et rid nt
      in if \<not> doctor_free s did st
           then (Inl (TriggerAbort ''Doctor already booked at this time''), s)
         else if \<not> room_free s rid st
           then (Inl (TriggerAbort ''Room already booked at this time''), s)
         else if \<not> refs_exist s pid did rid then (Inl ForeignKeyFailed, s)
         else (Inr aid,
               trg_appointments_insert_log now new
                 (s\<lparr>appointments := appointments s @ [new], seq_appointments := aid\<rparr>)))"
  unfolding book_appointment_def Let_def booked_row_def
  by (simp add: trg_doctor_iff [where did = did and st = st]
      trg_room_iff [where rid = rid and st = st]
      fk_violated_iff [where s = s and pid = pid and did = did and rid = rid]
      trg_appointments_insert_log_def Let_def)

lemma fold_max_ge: "(x::int) \<in> set ids \<Longrightarrow> x \<le> fold max ids m"
proof (induction ids arbitrary: m)
  case Nil then show ?case by simp
next
  case (Cons y ys)
  have mono: "m \<le> fold max ys m" for m :: int
    by (induction ys arbitrary: m) (auto intro: order_trans [OF max.cobounded2])
  from Cons show ?case
    by (auto intro: order_trans [OF _ mono])
qed

lemma next_rowid_fresh: "next_rowid m ids \<notin> set ids"
  using fold_max_ge [of "next_rowid m ids" ids m] by (auto simp: next_rowid_def)

lemma next_rowid_fresh_map: "a \<in> set xs \<Longrightarrow> f a \<noteq> next_rowid m (map f xs)"
  using next_rowid_fresh [of m "map f xs"] by force

lemma book_appointment_success:
  assumes "refs_exist s pid did rid" "doctor_free s did st" "room_free s rid st"
  shows "book_appointment s now pid did st et rid nt =
     (Inr (next_rowid (seq_appointments s) (map appointment_id (appointments s))),
      trg_appointments_insert_log now
        (booked_row (next_rowid (seq_appointments s) (map appointment_id (appointments s)))
           pid did st et rid nt)
        (s\<lparr>appointments := appointments s @
              [booked_row (next_rowid (seq_appointments s) (map appointment_id (appointments s)))
                 pid did st et rid nt],
           seq_appointments :=
             next_rowid (seq_appointments s) (map appointment_id (appointments s))\<rparr>))"
  using assms by (simp add: book_appointment_cases Let_def)

lemma book_appointment_Inr:
  assumes "book_appointment s now pid did st et rid nt = (Inr aid, s')"
  shows "aid = next_rowid (seq_appointments s) (map appointment_id (appointments s))
       \<and> s' = trg_appointments_insert_log now (booked_row aid pid did st et rid nt)
                (s\<lparr>appointments := appointments s @ [booked_row aid pid did st et rid nt],
                   seq_appointments := aid\<rparr>)"
  using assms by (auto simp: book_appointment_cases Let_def split: if_splits)

lemma book_appointment_Inl:
  "fst (book_appointment s now pid did st et rid nt) = Inl e \<Longrightarrow>
   snd (book_appointment s now pid did st et rid nt) = s"
  by (auto simp: book_appointment_cases Let_def split: if_splits)

text \<open>
  Claim C6. Cancelled appointments count for neither rule: when the patient, the
  doctor and the room (if one is given) exist, and every appointment present
  with this doctor and start time is cancelled, and every appointment present
  with this room and start time is cancelled, the booking succeeds: it returns
  a key no appointment had and adds the row, booked, to the table.
\<close>

theorem booking_ignores_cancelled:
  assumes "refs_exist s pid did rid" and "doctor_free s did st" and "room_free s rid st"
  shows "\<exists>aid s'. book_appointment s now pid did st et rid nt = (Inr aid, s')
           \<and> aid \<notin> set (map appointment_id (appointments s))
           \<and> appointments s' = appointments s @ [booked_row aid pid did st et rid nt]"
  using assms next_rowid_fresh [of "seq_appointments s" "map appointment_id (appointments s)"]
  by (simp add: book_appointment_success)

theorem booking_ignores_cancelled_witness:
  "(\<exists>a \<in> set (appointments cancelled_slot).
      doctor_id a = 1 \<and> room_id a = Some 1 \<and> start_time a = ''2025-08-30 09:00'')
   \<and> (\<exists>aid s'. book_appointment cancelled_slot ''2025-08-02 08:00:00'' 2 1 ''2025-08-30 09:00''
          None (Some 1) ''Follow-up'' = (Inr aid, s')
        \<and> aid \<notin> set (map appointment_id (appointments cancelled_slot))
        \<and> appointments s' = appointments cancelled_slot @
            [booked_row aid 2 1 ''2025-08-30 09:00'' None (Some 1) ''Follow-up''])"
proof -
  have "refs_exist cancelled_slot 2 1 (Some 1)" by code_simp
  moreover have "doctor_free cancelled_slot 1 ''2025-08-30 09:00''" by code_simp
  moreover have "room_free cancelled_slot (Some 1) ''2025-08-30 09:00''" by code_simp
  moreover have "\<exists>a \<in> set (appointments cancelled_slot).
      doctor_id a = 1 \<and> room_id a = Some 1 \<and> start_time a = ''2025-08-30 09:00''"
    by code_simp
  ultimately show ?thesis
    using booking_ignores_cancelled [of cancelled_slot 2 1 "Some 1" "''2025-08-30 09:00''"]
    by blast
qed

text \<open>
  Claim C10. Nothing keeps a patient from being booked twice at one time: when
  a patient has an appointment, not cancelled, at a start time, a booking of the
  same patient at the same start time with a doctor free then (and a room free
  then, or none) succeeds, and the table then holds both, neither cancelled,
  under different keys and doctors. The witness is such a booking in the store
  reached by seeding and one booking.
\<close>

theorem patient_double_booking_allowed:
  assumes "a \<in> set (appointments s)" and "patient_id a = pid" and "start_time a = st"
    and "status a \<noteq> ''Cancelled''"
    and "refs_exist s pid did rid" and "doctor_free s did st" and "room_free s rid st"
  shows "\<exists>aid s' b. book_appointment s now pid did st et rid nt = (Inr aid, s')
           \<and> a \<in> set (appointments s') \<and> b \<in> set (appointments s')
           \<and> appointment_id b = aid \<and> appointment_id a \<noteq> appointment_id b
           \<and> doctor_id a \<noteq> doctor_id b
           \<and> patient_id b = patient_id a \<and> start_time b = start_time a
           \<and> status a \<noteq> ''Cancelled'' \<and> status b \<noteq> ''Cancelled''"
proof -
  let ?aid = "next_rowid (seq_appointments s) (map appointment_id (appointments s))"
  let ?b = "booked_row ?aid pid did st et rid nt"
  have "appointment_id a \<noteq> ?aid"
    using assms(1) by (rule next_rowid_fresh_map)
  moreover have "doctor_id a \<noteq> did"
    using assms(1,3,4,6) by (auto simp: doctor_free_def)
  ultimately show ?thesis
    using assms
    by (intro exI [of _ ?aid] exI [of _ "snd (book_appointment s now pid did st et rid nt)"]
        exI [of _ ?b])
      (simp add: book_appointment_success booked_row_def)
qed

theorem patient_double_booking_allowed_witness:
  "\<exists>a aid s' b. a \<in> set (appointments (run one_booking))
      \<and> book_appointment (run one_booking) ''2025-08-02 08:00:00'' 1 2 ''2025-08-30 09:00''
            None None ''Second opinion'' = (Inr aid, s')
      \<and> a \<in> set (appointments s') \<and> b \<in> set (appointments s')
      \<and> appointment_id b = aid \<and> appointment_id a \<noteq> appointment_id b
      \<and> doctor_id a \<noteq> doctor_id b
      \<and> patient_id b = patient_id a \<and> start_time b = start_time a
      \<and> status a \<noteq> ''Cancelled'' \<and> status b \<noteq> ''Cancelled''"
proof -
  let ?a = "booked_row 1 1 1 ''2025-08-30 09:00'' None (Some 1) ''Initial consultation''"
  have "?a \<in> set (appointments (run one_booking))" by code_simp
  moreover have "patient_id ?a = 1" "start_time ?a = ''2025-08-30 09:00''"
    "status ?a \<noteq> ''Cancelled''"
    by (simp_all add: booked_row_def)
  moreover have "refs_exist (run one_booking) 1 2 None" by code_simp
  moreover have "doctor_free (run one_booking) 2 ''2025-08-30 09:00''" by code_simp
  moreover have "room_free (run one_booking) None ''2025-08-30 09:00''" by code_simp
  ultimately show ?thesis
    using patient_double_booking_allowed [of ?a "run one_booking" 1 "''2025-08-30 09:00''" 2 None]
    by blast
qed

text \<open>
  Claim C2, as amended. \<^verbatim>\<open>book_appointment\<close> fails with the error of a
  trigger when a conflict rule rejects the booking, whether or not the patient
  and the doctor exist: with the doctor's message when only the doctor rule
  rejects, with the room's message when only the room rule rejects, with one of
  the two when both do. When no rule rejects and the patient, the doctor or the
  given room does not exist, it fails with the foreign-key error. The two
  messages differ, and the foreign-key error is none of them. On any failure the
  store is the one before the call.
\<close>

theorem book_appointment_errors:
  "(\<not> doctor_free s did st \<and> room_free s rid st \<longrightarrow>
      book_appointment s now pid did st et rid nt =
        (Inl (TriggerAbort ''Doctor already booked at this time''), s))
   \<and> (doctor_free s did st \<and> \<not> room_free s rid st \<longrightarrow>
      book_appointment s now pid did st et rid nt =
        (Inl (TriggerAbort ''Room already booked at this time''), s))
   \<and> (\<not> doctor_free s did st \<and> \<not> room_free s rid st \<longrightarrow>
      book_appointment s now pid did st et rid nt =
        (Inl (TriggerAbort ''Doctor already booked at this time''), s)
      \<or> book_appointment s now pid did st et rid nt =
        (Inl (TriggerAbort ''Room already booked at this time''), s))
   \<and> (doctor_free s did st \<and> room_free s rid st \<and> \<not> refs_exist s pid did rid \<longrightarrow>
      book_appointment s now pid did st et rid nt = (Inl ForeignKeyFailed, s))
   \<and> (\<forall>e. fst (book_appointment s now pid did st et rid nt) = Inl e \<longrightarrow>
      snd (book_appointment s now pid did st et rid nt) = s)
   \<and> TriggerAbort ''Doctor already booked at this time''
       \<noteq> TriggerAbort ''Room already booked at this time''
   \<and> ForeignKeyFailed \<noteq> TriggerAbort m"
  by (simp add: book_appointment_cases Let_def)

theorem book_appointment_errors_witness:
  "\<not> doctor_free (run one_booking) 1 ''2025-08-30 09:00''
   \<and> room_free (run one_booking) None ''2025-08-30 09:00''
   \<and> book_appointment (run one_booking) ''2025-08-02 08:00:00'' 2 1 ''2025-08-30 09:00''
        None None [] =
        (Inl (TriggerAbort ''Doctor already booked at this time''), run one_booking)
   \<and> doctor_free (run one_booking) 2 ''2025-08-30 09:00''
   \<and> \<not> room_free (run one_booking) (Some 1) ''2025-08-30 09:00''
   \<and> book_appointment (run one_booking) ''2025-08-02 08:00:00'' 2 2 ''2025-08-30 09:00''
        None (Some 1) [] =
        (Inl (TriggerAbort ''Room already booked at this time''), run one_booking)
   \<and> doctor_free (run one_booking) 2 ''2025-08-31 09:00''
   \<and> room_free (run one_booking) None ''2025-08-31 09:00''
   \<and> \<not> refs_exist (run one_booking) 99 2 None
   \<and> book_appointment (run one_booking) ''2025-08-02 08:00:00'' 99 2 ''2025-08-31 09:00''
        None None [] = (Inl ForeignKeyFailed, run one_booking)"
proof -
  have d1: "\<not> doctor_free (run one_booking) 1 ''2025-08-30 09:00''" by code_simp
  have d2: "room_free (run one_booking) None ''2025-08-30 09:00''" by code_simp
  have r1: "doctor_free (run one_booking) 2 ''2025-08-30 09:00''" by code_simp
  have r2: "\<not> room_free (run one_booking) (Some 1) ''2025-08-30 09:00''" by code_simp
  have f1: "doctor_free (run one_booking) 2 ''2025-08-31 09:00''" by code_simp
  have f2: "room_free (run one_booking) None ''2025-08-31 09:00''" by code_simp
  have f3: "\<not> refs_exist (run one_booking) 99 2 None" by code_simp
  note doctor_case = book_appointment_errors [THEN conjunct1, rule_format, OF conjI, OF d1 d2]
  note room_case =
    book_appointment_errors [THEN conjunct2, THEN conjunct1, rule_format, OF conjI, OF r1 r2]
  note fk_case =
    book_appointment_errors [THEN conjunct2, THEN conjunct2, THEN conjunct2, THEN conjunct1,
      rule_format, OF conjI, OF f1 conjI, OF f2 f3]
  show ?thesis
    by (intro conjI d1 d2 r1 r2 f1 f2 f3 doctor_case room_case fk_case)
qed

text \<open>
  The claim as stated fails: patient 99 does not exist, doctor 1 is booked at the
  start time, and the booking fails with the doctor's conflict, not with the
  foreign-key error.
\<close>

theorem missing_patient_reported_as_conflict:
  "99 \<notin> set (map p_patient_id (patients (run one_booking)))
   \<and> fst (book_appointment (run one_booking) ''2025-08-02 08:00:00'' 99 1 ''2025-08-30 09:00''
        None None []) = Inl (TriggerAbort ''Doctor already booked at this time'')
   \<and> fst (book_appointment (run one_booking) ''2025-08-02 08:00:00'' 99 1 ''2025-08-30 09:00''
        None None []) \<noteq> Inl ForeignKeyFailed"
  by code_simp

section \<open>The audit trail\<close>

lemma audit_log_insert_or_ignore_patient [simp]:
  "audit_log (insert_or_ignore_patient row s) = audit_log s"
  by (simp add: insert_or_ignore_patient_def)

lemma audit_log_insert_or_ignore_doctor [simp]:
  "audit_log (insert_or_ignore_doctor row s) = audit_log s"
  by (simp add: insert_or_ignore_doctor_def)

lemma audit_log_insert_or_ignore_room [simp]:
  "audit_log (insert_or_ignore_room row s) = audit_log s"
  by (simp add: insert_or_ignore_room_def)

lemma audit_log_init_db [simp]: "audit_log (init_db s) = audit_log s"
  by (simp add: init_db_def seed_patients_def seed_doctors_def seed_rooms_def)

lemma audit_log_patient_new [simp]:
  "audit_log (snd (patient_new s n dob g ph e)) = audit_log s"
  by (simp add: patient_new_def insert_patient_def Let_def)

lemma audit_log_doctor_new [simp]: "audit_log (snd (doctor_new s n sp)) = audit_log s"
  by (simp add: doctor_new_def Let_def)

lemma audit_log_create_room [simp]: "audit_log (snd (create_room s n t)) = audit_log s"
  by (simp add: create_room_def Let_def)

lemma audit_log_patient_delete [simp]: "audit_log (patient_delete s pid) = audit_log s"
  by (simp add: patient_delete_def)

lemma audit_log_doctor_delete [simp]: "audit_log (doctor_delete s did) = audit_log s"
  by (simp add: doctor_delete_def)

lemma audit_log_delete_room [simp]: "audit_log (delete_room s rid) = audit_log s"
  by (simp add: delete_room_def)

lemma audit_log_book_Inr:
  assumes "book_appointment s now pid did st et rid nt = (Inr aid, s')"
  shows "audit_log s' = audit_log s @
     [\<lparr>log_id = next_rowid (seq_audit s) (map log_id (audit_log s)),
       entity = ''Appointments'', action = ''INSERT'',
       details = Some (''appointment_id='' @ show_int aid @ '', patient_id='' @ show_int pid @
                       '', doctor_id='' @ show_int did @ '', start_time='' @ st),
       created_at = Some now\<rparr>]"
  using book_appointment_Inr [OF assms]
  by (simp add: trg_appointments_insert_log_def Let_def log_details_def booked_row_def)

lemma audit_log_step_other: "\<not> is_booking x \<Longrightarrow> audit_log (step s x) = audit_log s"
  by (cases x) simp_all

lemma audit_count_step:
  "length (filter is_appointment_insert (audit_log (step s x))) =
   length (filter is_appointment_insert (audit_log s)) + (if books s x then 1 else 0)"
proof (cases "is_booking x")
  case False
  then have "\<not> books s x" by (cases x) simp_all
  with False show ?thesis by (simp add: audit_log_step_other)
next
  case True
  then obtain now pid did st et rid nt where x: "x = Book now pid did st et rid nt"
    by (cases x) simp_all
  show ?thesis
  proof (cases "fst (book_appointment s now pid did st et rid nt)")
    case (Inl e)
    then show ?thesis
      using book_appointment_Inl [of s now pid did st et rid nt e] by (simp add: x)
  next
    case (Inr aid)
    then have "book_appointment s now pid did st et rid nt =
        (Inr aid, snd (book_appointment s now pid did st et rid nt))"
      by (cases "book_appointment s now pid did st et rid nt") simp
    from audit_log_book_Inr [OF this] Inr show ?thesis
      by (simp add: x is_appointment_insert_def)
  qed
qed

lemma audit_count_foldl:
  "length (filter is_appointment_insert (audit_log (foldl step s ops))) =
   length (filter is_appointment_insert (audit_log s)) + bookings_made s ops"
  by (induction ops arbitrary: s) (simp_all add: audit_count_step)

lemma audit_all_step:
  "list_all is_appointment_insert (audit_log s) \<Longrightarrow>
   list_all is_appointment_insert (audit_log (step s x))"
proof (cases "is_booking x")
  case False
  assume "list_all is_appointment_insert (audit_log s)"
  with False show ?thesis by (simp add: audit_log_step_other)
next
  case True
  assume a: "list_all is_appointment_insert (audit_log s)"
  from True obtain now pid did st et rid nt where x: "x = Book now pid did st et rid nt"
    by (cases x) simp_all
  show ?thesis
  proof (cases "fst (book_appointment s now pid did st et rid nt)")
    case (Inl e)
    then show ?thesis
      using a book_appointment_Inl [of s now pid did st et rid nt e] by (simp add: x)
  next
    case (Inr aid)
    then have "book_appointment s now pid did st et rid nt =
        (Inr aid, snd (book_appointment s now pid did st et rid nt))"
      by (cases "book_appointment s now pid did st et rid nt") simp
    from audit_log_book_Inr [OF this] a show ?thesis
      by (simp add: x is_appointment_insert_def)
  qed
qed

lemma audit_all_foldl:
  "list_all is_appointment_insert (audit_log s) \<Longrightarrow>
   list_all is_appointment_insert (audit_log (foldl step s ops))"
  by (induction ops arbitrary: s) (simp_all add: audit_all_step)

text \<open>
  Claim C3. A booking that succeeds appends exactly one entry to the audit log,
  with entity \<^verbatim>\<open>Appointments\<close>, action \<^verbatim>\<open>INSERT\<close> and, as details, the text
  made of the new key, the patient, the doctor and the start time; a booking
  that fails leaves the log as it was, and so does every other operation
  (seeding, creating and deleting patients, doctors and rooms; the reports are
  functions of the store and return no store). So, after any run from the empty
  database, the log holds as many such entries, and as many entries in all, as
  bookings of the run succeeded.
\<close>

theorem audit_trail:
  "(\<forall>aid s'. book_appointment s now pid did st et rid nt = (Inr aid, s') \<longrightarrow>
      (\<exists>lid. audit_log s' = audit_log s @
         [\<lparr>log_id = lid, entity = ''Appointments'', action = ''INSERT'',
           details = Some (''appointment_id='' @ show_int aid @ '', patient_id='' @ show_int pid @
                           '', doctor_id='' @ show_int did @ '', start_time='' @ st),
           created_at = Some now\<rparr>]))
   \<and> (\<forall>e. fst (book_appointment s now pid did st et rid nt) = Inl e \<longrightarrow>
        audit_log (snd (book_appointment s now pid did st et rid nt)) = audit_log s)
   \<and> (\<not> is_booking x \<longrightarrow> audit_log (step s x) = audit_log s)
   \<and> length (filter is_appointment_insert (audit_log (run ops))) = bookings_made empty_db ops
   \<and> length (audit_log (run ops)) = bookings_made empty_db ops"
proof -
  have "list_all is_appointment_insert (audit_log (run ops))"
    unfolding run_def by (rule audit_all_foldl) (simp add: empty_db_def)
  then have all: "filter is_appointment_insert (audit_log (run ops)) = audit_log (run ops)"
    by (simp add: list_all_iff)
  have count: "length (filter is_appointment_insert (audit_log (run ops)))
      = bookings_made empty_db ops"
    using audit_count_foldl [of empty_db ops] by (simp add: run_def empty_db_def)
  have ok: "\<forall>aid s'. book_appointment s now pid did st et rid nt = (Inr aid, s') \<longrightarrow>
      (\<exists>lid. audit_log s' = audit_log s @
         [\<lparr>log_id = lid, entity = ''Appointments'', action = ''INSERT'',
           details = Some (''appointment_id='' @ show_int aid @ '', patient_id='' @ show_int pid @
                           '', doctor_id='' @ show_int did @ '', start_time='' @ st),
           created_at = Some now\<rparr>])"
  proof (intro allI impI)
    fix aid s'
    assume "book_appointment s now pid did st et rid nt = (Inr aid, s')"
    then show "\<exists>lid. audit_log s' = audit_log s @
         [\<lparr>log_id = lid, entity = ''Appointments'', action = ''INSERT'',
           details = Some (''appointment_id='' @ show_int aid @ '', patient_id='' @ show_int pid @
                           '', doctor_id='' @ show_int did @ '', start_time='' @ st),
           created_at = Some now\<rparr>]"
      by (intro exI [of _ "next_rowid (seq_audit s) (map log_id (audit_log s))"])
        (rule audit_log_book_Inr)
  qed
  have err: "\<forall>e. fst (book_appointment s now pid did st et rid nt) = Inl e \<longrightarrow>
        audit_log (snd (book_appointment s now pid did st et rid nt)) = audit_log s"
  proof (intro allI impI)
    fix e
    assume "fst (book_appointment s now pid did st et rid nt) = Inl e"
    then have "snd (book_appointment s now pid did st et rid nt) = s"
      by (rule book_appointment_Inl)
    then show "audit_log (snd (book_appointment s now pid did st et rid nt)) = audit_log s"
      by simp
  qed
  have other: "\<not> is_booking x \<longrightarrow> audit_log (step s x) = audit_log s"
    by (simp add: audit_log_step_other)
  from count all have len: "length (audit_log (run ops)) = bookings_made empty_db ops"
    by simp
  from ok err other count len show ?thesis
    by (intro conjI)
qed

theorem audit_trail_witness:
  "(\<exists>lid. audit_log (snd (book_appointment (run one_booking) ''2025-08-01 10:05:00'' 2 2
                 ''2025-08-30 09:00'' None (Some 2) [])) =
       audit_log (run one_booking) @
         [\<lparr>log_id = lid, entity = ''Appointments'', action = ''INSERT'',
           details =
             Some ''appointment_id=2, patient_id=2, doctor_id=2, start_time=2025-08-30 09:00'',
           created_at = Some ''2025-08-01 10:05:00''\<rparr>])
   \<and> audit_log (step (run one_booking) (Patient_delete 1)) = audit_log (run one_booking)
   \<and> length (filter is_appointment_insert (audit_log (run two_bookings))) = 2
   \<and> length (audit_log (run two_bookings)) = 2"
proof -
  let ?B = "book_appointment (run one_booking) ''2025-08-01 10:05:00'' 2 2
              ''2025-08-30 09:00'' None (Some 2) []"
  note t = audit_trail [of "run one_booking" "''2025-08-01 10:05:00''" 2 2
      "''2025-08-30 09:00''" None "Some 2" "[]" "Patient_delete 1" two_bookings]
  have "fst ?B = Inr 2" by code_simp
  then have eq: "?B = (Inr 2, snd ?B)"
    by (cases ?B) simp
  have two: "show_int 2 = ''2''" by code_simp
  have made: "bookings_made empty_db two_bookings = 2" by code_simp
  from t [THEN conjunct1, rule_format, OF eq]
  have c1: "\<exists>lid. audit_log (snd ?B) = audit_log (run one_booking) @
         [\<lparr>log_id = lid, entity = ''Appointments'', action = ''INSERT'',
           details =
             Some ''appointment_id=2, patient_id=2, doctor_id=2, start_time=2025-08-30 09:00'',
           created_at = Some ''2025-08-01 10:05:00''\<rparr>]"
    by (simp add: two)
  from t [THEN conjunct2, THEN conjunct2, THEN conjunct1]
  have c2: "audit_log (step (run one_booking) (Patient_delete 1)) = audit_log (run one_booking)"
    by simp
  from t [THEN conjunct2, THEN conjunct2, THEN conjunct2] made
  have c3: "length (filter is_appointment_insert (audit_log (run two_bookings))) = 2"
    and c4: "length (audit_log (run two_bookings)) = 2"
    by simp_all
  from c1 c2 c3 c4 show ?thesis
    by (intro conjI)
qed

section \<open>Referential integrity\<close>

lemma fk_violated_mono:
  assumes "\<not> fk_violated s a"
    and "set (map p_patient_id (patients s)) \<subseteq> set (map p_patient_id (patients s'))"
    and "set (map d_doctor_id (doctors s)) \<subseteq> set (map d_doctor_id (doctors s'))"
    and "set (map r_room_id (rooms s)) \<subseteq> set (map r_room_id (rooms s'))"
  shows "\<not> fk_violated s' a"
  using assms by (auto simp: fk_violated_def split: option.splits)

lemma fk_ok_mono:
  assumes "fk_ok s" and "appointments s' = appointments s"
    and "set (map p_patient_id (patients s)) \<subseteq> set (map p_patient_id (patients s'))"
    and "set (map d_doctor_id (doctors s)) \<subseteq> set (map d_doctor_id (doctors s'))"
    and "set (map r_room_id (rooms s)) \<subseteq> set (map r_room_id (rooms s'))"
  shows "fk_ok s'"
  using assms fk_violated_mono [of s _ s'] by (simp add: fk_ok_def)

lemma fk_ok_insert_or_ignore_patient: "fk_ok s \<Longrightarrow> fk_ok (insert_or_ignore_patient row s)"
  by (rule fk_ok_mono [of s]) (auto simp: insert_or_ignore_patient_def)

lemma fk_ok_insert_or_ignore_doctor: "fk_ok s \<Longrightarrow> fk_ok (insert_or_ignore_doctor row s)"
  by (rule fk_ok_mono [of s]) (auto simp: insert_or_ignore_doctor_def)

lemma fk_ok_insert_or_ignore_room: "fk_ok s \<Longrightarrow> fk_ok (insert_or_ignore_room row s)"
  by (rule fk_ok_mono [of s]) (auto simp: insert_or_ignore_room_def)

lemma fk_ok_init_db: "fk_ok s \<Longrightarrow> fk_ok (init_db s)"
  by (simp add: init_db_def seed_patients_def seed_doctors_def seed_rooms_def
      fk_ok_insert_or_ignore_patient fk_ok_insert_or_ignore_doctor fk_ok_insert_or_ignore_room)

lemma fk_ok_patient_new: "fk_ok s \<Longrightarrow> fk_ok (snd (patient_new s n dob g ph e))"
  by (rule fk_ok_mono [of s]) (auto simp: patient_new_def insert_patient_def Let_def)

lemma fk_ok_doctor_new: "fk_ok s \<Longrightarrow> fk_ok (snd (doctor_new s n sp))"
  by (rule fk_ok_mono [of s]) (auto simp: doctor_new_def Let_def)

lemma fk_ok_create_room: "fk_ok s \<Longrightarrow> fk_ok (snd (create_room s n t))"
  by (rule fk_ok_mono [of s]) (auto simp: create_room_def Let_def)

lemma fk_ok_book:
  assumes "fk_ok s"
  shows "fk_ok (snd (book_appointment s now pid did st et rid nt))"
  using assms
  by (auto simp: book_appointment_cases Let_def fk_ok_def fk_violated_def refs_exist_def
      booked_row_def trg_appointments_insert_log_def split: option.splits)

lemma not_fk_violated_iff:
  "\<not> fk_violated s a \<longleftrightarrow>
     patient_id a \<in> p_patient_id ` set (patients s) \<and>
     doctor_id a \<in> d_doctor_id ` set (doctors s) \<and>
     (\<forall>r. room_id a = Some r \<longrightarrow> r \<in> r_room_id ` set (rooms s))"
  by (auto simp: fk_violated_def split: option.splits)

lemma image_filter_neq:
  "x \<in> f ` set xs \<Longrightarrow> x \<noteq> k \<Longrightarrow> x \<in> f ` {p \<in> set xs. f p \<noteq> k}"
  by auto

lemma fk_ok_patient_delete:
  assumes "fk_ok s"
  shows "fk_ok (patient_delete s pid)"
proof (cases "pid \<in> set (map p_patient_id (patients s))")
  case False
  with assms show ?thesis by (simp add: patient_delete_def)
next
  case True
  have "\<not> fk_violated (patient_delete s pid) a"
    if "a \<in> set (appointments s)" and "patient_id a \<noteq> pid" for a
  proof -
    from assms that(1) have "\<not> fk_violated s a" by (simp add: fk_ok_def)
    with that(2) True show ?thesis
      by (auto simp: not_fk_violated_iff patient_delete_def intro: image_filter_neq)
  qed
  with True show ?thesis
    by (simp add: fk_ok_def patient_delete_def)
qed

lemma fk_ok_doctor_delete:
  assumes "fk_ok s"
  shows "fk_ok (doctor_delete s did)"
proof (cases "did \<in> set (map d_doctor_id (doctors s))")
  case False
  with assms show ?thesis by (simp add: doctor_delete_def)
next
  case True
  have "\<not> fk_violated (doctor_delete s did) a"
    if "a \<in> set (appointments s)" and "doctor_id a \<noteq> did" for a
  proof -
    from assms that(1) have "\<not> fk_violated s a" by (simp add: fk_ok_def)
    with that(2) True show ?thesis
      by (auto simp: not_fk_violated_iff doctor_delete_def intro: image_filter_neq)
  qed
  with True show ?thesis
    by (simp add: fk_ok_def doctor_delete_def)
qed

lemma fk_ok_delete_room:
  assumes "fk_ok s"
  shows "fk_ok (delete_room s rid)"
proof (cases "rid \<in> set (map r_room_id (rooms s))")
  case False
  with assms show ?thesis by (simp add: delete_room_def)
next
  case True
  have "\<not> fk_violated (delete_room s rid) (set_null_room rid a)"
    if "a \<in> set (appointments s)" for a
  proof -
    from assms that have "\<not> fk_violated s a" by (simp add: fk_ok_def)
    with True show ?thesis
      by (auto simp: not_fk_violated_iff delete_room_def set_null_room_def
          intro: image_filter_neq)
  qed
  with True show ?thesis
    by (simp add: fk_ok_def delete_room_def)
qed

lemma fk_ok_step: "fk_ok s \<Longrightarrow> fk_ok (step s x)"
  by (cases x)
    (simp_all add: fk_ok_init_db fk_ok_book fk_ok_patient_new fk_ok_patient_delete
      fk_ok_doctor_new fk_ok_doctor_delete fk_ok_create_room fk_ok_delete_room)

lemma fk_ok_foldl: "fk_ok s \<Longrightarrow> fk_ok (foldl step s ops)"
  by (induction ops arbitrary: s) (simp_all add: fk_ok_step)

lemma fk_ok_run: "fk_ok (run ops)"
  unfolding run_def by (rule fk_ok_foldl) (simp add: fk_ok_def empty_db_def)

section \<open>Deleting patients, doctors and rooms\<close>

lemma orphan_patient:
  "fk_ok s \<Longrightarrow> pid \<notin> set (map p_patient_id (patients s)) \<Longrightarrow>
   a \<in> set (appointments s) \<Longrightarrow> patient_id a \<noteq> pid"
  by (auto simp: fk_ok_def fk_violated_def)

lemma orphan_doctor:
  "fk_ok s \<Longrightarrow> did \<notin> set (map d_doctor_id (doctors s)) \<Longrightarrow>
   a \<in> set (appointments s) \<Longrightarrow> doctor_id a \<noteq> did"
  by (auto simp: fk_ok_def fk_violated_def)

lemma orphan_room:
  "fk_ok s \<Longrightarrow> rid \<notin> set (map r_room_id (rooms s)) \<Longrightarrow>
   a \<in> set (appointments s) \<Longrightarrow> room_id a \<noteq> Some rid"
  by (auto simp: fk_ok_def fk_violated_def split: option.splits)

lemma appointments_patient_delete:
  assumes "fk_ok s"
  shows "appointments (patient_delete s pid) = filter (\<lambda>a. patient_id a \<noteq> pid) (appointments s)"
proof (cases "pid \<in> set (map p_patient_id (patients s))")
  case True
  then show ?thesis by (simp add: patient_delete_def)
next
  case False
  with assms have "\<forall>a \<in> set (appointments s). patient_id a \<noteq> pid"
    by (blast dest: orphan_patient)
  then have "filter (\<lambda>a. patient_id a \<noteq> pid) (appointments s) = appointments s"
    by (simp add: filter_id_conv)
  with False show ?thesis by (simp add: patient_delete_def)
qed

lemma appointments_doctor_delete:
  assumes "fk_ok s"
  shows "appointments (doctor_delete s did) = filter (\<lambda>a. doctor_id a \<noteq> did) (appointments s)"
proof (cases "did \<in> set (map d_doctor_id (doctors s))")
  case True
  then show ?thesis by (simp add: doctor_delete_def)
next
  case False
  with assms have "\<forall>a \<in> set (appointments s). doctor_id a \<noteq> did"
    by (blast dest: orphan_doctor)
  then have "filter (\<lambda>a. doctor_id a \<noteq> did) (appointments s) = appointments s"
    by (simp add: filter_id_conv)
  with False show ?thesis by (simp add: doctor_delete_def)
qed

lemma patients_patient_delete:
  "patients (patient_delete s pid) = filter (\<lambda>p. p_patient_id p \<noteq> pid) (patients s)"
proof (cases "pid \<in> set (map p_patient_id (patients s))")
  case True
  then show ?thesis by (simp add: patient_delete_def)
next
  case False
  then have "filter (\<lambda>p. p_patient_id p \<noteq> pid) (patients s) = patients s"
    by (auto simp: filter_id_conv)
  with False show ?thesis by (simp add: patient_delete_def)
qed

lemma doctors_doctor_delete:
  "doctors (doctor_delete s did) = filter (\<lambda>d. d_doctor_id d \<noteq> did) (doctors s)"
proof (cases "did \<in> set (map d_doctor_id (doctors s))")
  case True
  then show ?thesis by (simp add: doctor_delete_def)
next
  case False
  then have "filter (\<lambda>d. d_doctor_id d \<noteq> did) (doctors s) = doctors s"
    by (auto simp: filter_id_conv)
  with False show ?thesis by (simp add: doctor_delete_def)
qed

text \<open>
  Claim C4. In a store that has referential integrity (every store the program
  reaches has), \<^verbatim>\<open>patient_delete\<close> of a key leaves no appointment and no patient
  with that key, and \<^verbatim>\<open>doctor_delete\<close> of a key leaves no appointment and no
  doctor with that key. Parent and dependent rows go in the one step the
  operation is: the store after it is the store before it without the parent
  row and without exactly the appointments that pointed to it.
\<close>

theorem delete_cascades:
  assumes "fk_ok s"
  shows "(\<forall>a \<in> set (appointments (patient_delete s pid)). patient_id a \<noteq> pid)
    \<and> pid \<notin> set (map p_patient_id (patients (patient_delete s pid)))
    \<and> patient_delete s pid =
        s\<lparr>patients := filter (\<lambda>p. p_patient_id p \<noteq> pid) (patients s),
          appointments := filter (\<lambda>a. patient_id a \<noteq> pid) (appointments s)\<rparr>
    \<and> (\<forall>a \<in> set (appointments (doctor_delete s did)). doctor_id a \<noteq> did)
    \<and> did \<notin> set (map d_doctor_id (doctors (doctor_delete s did)))
    \<and> doctor_delete s did =
        s\<lparr>doctors := filter (\<lambda>d. d_doctor_id d \<noteq> did) (doctors s),
          appointments := filter (\<lambda>a. doctor_id a \<noteq> did) (appointments s)\<rparr>"
proof -
  have p: "patient_delete s pid =
        s\<lparr>patients := filter (\<lambda>p. p_patient_id p \<noteq> pid) (patients s),
          appointments := filter (\<lambda>a. patient_id a \<noteq> pid) (appointments s)\<rparr>"
    using appointments_patient_delete [OF assms, of pid] patients_patient_delete [of s pid]
    by (simp add: patient_delete_def)
  have d: "doctor_delete s did =
        s\<lparr>doctors := filter (\<lambda>d. d_doctor_id d \<noteq> did) (doctors s),
          appointments := filter (\<lambda>a. doctor_id a \<noteq> did) (appointments s)\<rparr>"
    using appointments_doctor_delete [OF assms, of did] doctors_doctor_delete [of s did]
    by (simp add: doctor_delete_def)
  have "pid \<notin> set (map p_patient_id (patients (patient_delete s pid)))"
    and "did \<notin> set (map d_doctor_id (doctors (doctor_delete s did)))"
    by (auto simp: patients_patient_delete doctors_doctor_delete)
  moreover have "\<forall>a \<in> set (appointments (patient_delete s pid)). patient_id a \<noteq> pid"
    and "\<forall>a \<in> set (appointments (doctor_delete s did)). doctor_id a \<noteq> did"
    by (simp_all add: appointments_patient_delete [OF assms] appointments_doctor_delete [OF assms])
  ultimately show ?thesis
    using p d by (intro conjI)
qed

theorem delete_cascades_witness:
  "fk_ok (run two_bookings)
   \<and> (\<exists>a \<in> set (appointments (run two_bookings)). patient_id a = 1)
   \<and> 1 \<notin> patient_id ` set (appointments (patient_delete (run two_bookings) 1))
   \<and> 1 \<notin> set (map p_patient_id (patients (patient_delete (run two_bookings) 1)))
   \<and> (\<exists>a \<in> set (appointments (run two_bookings)). doctor_id a = 2)
   \<and> 2 \<notin> doctor_id ` set (appointments (doctor_delete (run two_bookings) 2))
   \<and> 2 \<notin> set (map d_doctor_id (doctors (doctor_delete (run two_bookings) 2)))"
proof -
  have ok: "fk_ok (run two_bookings)" by (rule fk_ok_run)
  note t = delete_cascades [OF ok, of 1 2]
  have p: "\<exists>a \<in> set (appointments (run two_bookings)). patient_id a = 1" by code_simp
  have d: "\<exists>a \<in> set (appointments (run two_bookings)). doctor_id a = 2" by code_simp
  from t [THEN conjunct1]
  have c1: "1 \<notin> patient_id ` set (appointments (patient_delete (run two_bookings) 1))"
    by auto
  note c2 = t [THEN conjunct2, THEN conjunct1]
  from t [THEN conjunct2, THEN conjunct2, THEN conjunct2, THEN conjunct1]
  have c3: "2 \<notin> doctor_id ` set (appointments (doctor_delete (run two_bookings) 2))"
    by auto
  note c4 = t [THEN conjunct2, THEN conjunct2, THEN conjunct2, THEN conjunct2, THEN conjunct1]
  from ok p c1 c2 d c3 c4 show ?thesis
    by (intro conjI)
qed

lemma appointments_delete_room:
  assumes "fk_ok s"
  shows "appointments (delete_room s rid) = map (set_null_room rid) (appointments s)"
proof (cases "rid \<in> set (map r_room_id (rooms s))")
  case True
  then show ?thesis by (simp add: delete_room_def)
next
  case False
  with assms have "\<forall>a \<in> set (appointments s). room_id a \<noteq> Some rid"
    by (blast dest: orphan_room)
  then have "map (set_null_room rid) (appointments s) = appointments s"
    by (simp add: map_idI set_null_room_def)
  with False show ?thesis by (simp add: delete_room_def)
qed

lemma rooms_delete_room:
  "rooms (delete_room s rid) = filter (\<lambda>r. r_room_id r \<noteq> rid) (rooms s)"
proof (cases "rid \<in> set (map r_room_id (rooms s))")
  case True
  then show ?thesis by (simp add: delete_room_def)
next
  case False
  then have "filter (\<lambda>r. r_room_id r \<noteq> rid) (rooms s) = rooms s"
    by (auto simp: filter_id_conv)
  with False show ?thesis by (simp add: delete_room_def)
qed

text \<open>
  Claim C5. In a store that has referential integrity (every store the program
  reaches has), after \<open>deleteRoom\<close> of a key the table of appointments has the
  rows it had, in their places: a row that pointed to the room is the row it was
  with \<open>room_id\<close> set to \<^verbatim>\<open>NULL\<close> and every other field as before, and a row
  that did not point to the room is the row it was. No room has the key any more.
\<close>

theorem delete_room_sets_null:
  assumes "fk_ok s"
  shows "length (appointments (delete_room s rid)) = length (appointments s)
    \<and> (\<forall>i < length (appointments s).
          (room_id (appointments s ! i) = Some rid \<longrightarrow>
             appointments (delete_room s rid) ! i = (appointments s ! i)\<lparr>room_id := None\<rparr>)
        \<and> (room_id (appointments s ! i) \<noteq> Some rid \<longrightarrow>
             appointments (delete_room s rid) ! i = appointments s ! i))
    \<and> rid \<notin> set (map r_room_id (rooms (delete_room s rid)))"
proof -
  have "rid \<notin> set (map r_room_id (rooms (delete_room s rid)))"
    by (auto simp: rooms_delete_room)
  then show ?thesis
    by (simp add: appointments_delete_room [OF assms] set_null_room_def)
qed

theorem delete_room_sets_null_witness:
  "fk_ok (run two_bookings)
   \<and> room_id (appointments (run two_bookings) ! 0) = Some 1
   \<and> appointments (delete_room (run two_bookings) 1) ! 0 =
       (appointments (run two_bookings) ! 0)\<lparr>room_id := None\<rparr>
   \<and> room_id (appointments (run two_bookings) ! 1) \<noteq> Some 1
   \<and> appointments (delete_room (run two_bookings) 1) ! 1 = appointments (run two_bookings) ! 1
   \<and> 1 \<notin> set (map r_room_id (rooms (delete_room (run two_bookings) 1)))"
proof -
  have ok: "fk_ok (run two_bookings)" by (rule fk_ok_run)
  note t = delete_room_sets_null [OF ok, of 1]
  have len: "length (appointments (run two_bookings)) = 2" by code_simp
  have r0: "room_id (appointments (run two_bookings) ! 0) = Some 1" by code_simp
  have r1: "room_id (appointments (run two_bookings) ! 1) \<noteq> Some 1" by code_simp
  from t [THEN conjunct2, THEN conjunct1, rule_format, of 0] len r0
  have c0: "appointments (delete_room (run two_bookings) 1) ! 0 =
       (appointments (run two_bookings) ! 0)\<lparr>room_id := None\<rparr>"
    by simp
  from t [THEN conjunct2, THEN conjunct1, rule_format, of 1] len r1
  have c1: "appointments (delete_room (run two_bookings) 1) ! 1 =
       appointments (run two_bookings) ! 1"
    by simp
  from t have c2: "1 \<notin> set (map r_room_id (rooms (delete_room (run two_bookings) 1)))"
    by (rule conjunct2 [THEN conjunct2])
  from ok r0 c0 r1 c1 c2 show ?thesis
    by (intro conjI)
qed

section \<open>Seeding twice\<close>

lemma patient_conflict_after: "patient_conflict row (insert_or_ignore_patient row s)"
  by (simp add: insert_or_ignore_patient_def patient_conflict_def)

lemma doctor_conflict_after: "doctor_conflict row (insert_or_ignore_doctor row s)"
  by (simp add: insert_or_ignore_doctor_def doctor_conflict_def)

lemma room_conflict_after: "room_conflict row (insert_or_ignore_room row s)"
  by (simp add: insert_or_ignore_room_def room_conflict_def)

lemma patient_conflict_mono:
  assumes "patient_conflict row s" and "set (patients s) \<subseteq> set (patients s')"
  shows "patient_conflict row s'"
  using assms by (auto simp: patient_conflict_def email_taken_def)

lemma doctor_conflict_mono:
  assumes "doctor_conflict row s" and "set (doctors s) \<subseteq> set (doctors s')"
  shows "doctor_conflict row s'"
  using assms by (auto simp: doctor_conflict_def)

lemma room_conflict_mono:
  assumes "room_conflict row s" and "set (rooms s) \<subseteq> set (rooms s')"
  shows "room_conflict row s'"
  using assms by (auto simp: room_conflict_def)

lemma patients_grow_patient: "set (patients s) \<subseteq> set (patients (insert_or_ignore_patient row s))"
  by (auto simp: insert_or_ignore_patient_def)

lemma patients_same_doctor [simp]: "patients (insert_or_ignore_doctor row s) = patients s"
  by (simp add: insert_or_ignore_doctor_def)

lemma patients_same_room [simp]: "patients (insert_or_ignore_room row s) = patients s"
  by (simp add: insert_or_ignore_room_def)

lemma doctors_grow_doctor: "set (doctors s) \<subseteq> set (doctors (insert_or_ignore_doctor row s))"
  by (auto simp: insert_or_ignore_doctor_def)

lemma doctors_same_patient [simp]: "doctors (insert_or_ignore_patient row s) = doctors s"
  by (simp add: insert_or_ignore_patient_def)

lemma doctors_same_room [simp]: "doctors (insert_or_ignore_room row s) = doctors s"
  by (simp add: insert_or_ignore_room_def)

lemma rooms_grow_room: "set (rooms s) \<subseteq> set (rooms (insert_or_ignore_room row s))"
  by (auto simp: insert_or_ignore_room_def)

lemma rooms_same_patient [simp]: "rooms (insert_or_ignore_patient row s) = rooms s"
  by (simp add: insert_or_ignore_patient_def)

lemma rooms_same_doctor [simp]: "rooms (insert_or_ignore_doctor row s) = rooms s"
  by (simp add: insert_or_ignore_doctor_def)

lemma patient_conflict_kept:
  "patient_conflict row s \<Longrightarrow> patient_conflict row (insert_or_ignore_patient row' s)"
  "patient_conflict row s \<Longrightarrow> patient_conflict row (insert_or_ignore_doctor d s)"
  "patient_conflict row s \<Longrightarrow> patient_conflict row (insert_or_ignore_room r s)"
  by (erule patient_conflict_mono, simp add: patients_grow_patient)
    (erule patient_conflict_mono, simp)+

lemma doctor_conflict_kept:
  "doctor_conflict row s \<Longrightarrow> doctor_conflict row (insert_or_ignore_doctor row' s)"
  "doctor_conflict row s \<Longrightarrow> doctor_conflict row (insert_or_ignore_patient p s)"
  "doctor_conflict row s \<Longrightarrow> doctor_conflict row (insert_or_ignore_room r s)"
  by (erule doctor_conflict_mono, simp add: doctors_grow_doctor)
    (erule doctor_conflict_mono, simp)+

lemma room_conflict_kept:
  "room_conflict row s \<Longrightarrow> room_conflict row (insert_or_ignore_room row' s)"
  "room_conflict row s \<Longrightarrow> room_conflict row (insert_or_ignore_patient p s)"
  "room_conflict row s \<Longrightarrow> room_conflict row (insert_or_ignore_doctor d s)"
  by (erule room_conflict_mono, simp add: rooms_grow_room)
    (erule room_conflict_mono, simp)+

lemma insert_or_ignore_skips:
  "patient_conflict p s \<Longrightarrow> insert_or_ignore_patient p s = s"
  "doctor_conflict d s \<Longrightarrow> insert_or_ignore_doctor d s = s"
  "room_conflict r s \<Longrightarrow> insert_or_ignore_room r s = s"
  by (simp_all add: insert_or_ignore_patient_def insert_or_ignore_doctor_def
      insert_or_ignore_room_def)

lemma seed_twice:
  "insert_or_ignore_room r3 (insert_or_ignore_room r2 (insert_or_ignore_room r1
     (insert_or_ignore_doctor d2 (insert_or_ignore_doctor d1
        (insert_or_ignore_patient p2 (insert_or_ignore_patient p1
           (insert_or_ignore_room r3 (insert_or_ignore_room r2 (insert_or_ignore_room r1
              (insert_or_ignore_doctor d2 (insert_or_ignore_doctor d1
                 (insert_or_ignore_patient p2 (insert_or_ignore_patient p1 s)))))))))))))
   = insert_or_ignore_room r3 (insert_or_ignore_room r2 (insert_or_ignore_room r1
       (insert_or_ignore_doctor d2 (insert_or_ignore_doctor d1
          (insert_or_ignore_patient p2 (insert_or_ignore_patient p1 s))))))"
  (is "?R3 (?R2 (?R1 (?D2 (?D1 (?P2 (?P1 ?t)))))) = ?t")
proof -
  have p1: "patient_conflict p1 ?t"
    by (intro patient_conflict_kept patient_conflict_after)
  have p2: "patient_conflict p2 ?t"
    by (intro patient_conflict_kept patient_conflict_after)
  have d1: "doctor_conflict d1 ?t"
    by (intro doctor_conflict_kept doctor_conflict_after)
  have d2: "doctor_conflict d2 ?t"
    by (intro doctor_conflict_kept doctor_conflict_after)
  have r1: "room_conflict r1 ?t"
    by (intro room_conflict_kept room_conflict_after)
  have r2: "room_conflict r2 ?t"
    by (intro room_conflict_kept room_conflict_after)
  have r3: "room_conflict r3 ?t"
    by (intro room_conflict_kept room_conflict_after)
  show ?thesis
    by (simp add: insert_or_ignore_skips p1 p2 d1 d2 r1 r2 r3)
qed

text \<open>
  Claim C9. Seeding is idempotent: \<^verbatim>\<open>init_db\<close> raises no error (its statements
  are \<^verbatim>\<open>IF NOT EXISTS\<close> and \<^verbatim>\<open>INSERT OR IGNORE\<close>; the function has no error
  result), and a second run right after a first leaves the store as the first
  made it, so no seed row is doubled and every table keeps its row count. On the
  empty database the first run writes the two patients, two doctors and three
  rooms. (A seed row deleted after a run is written again by the next run;
  the claim is about a run that follows a run.)
\<close>

theorem init_db_idempotent:
  "init_db (init_db s) = init_db s
   \<and> length (patients (init_db (init_db s))) = length (patients (init_db s))
   \<and> length (doctors (init_db (init_db s))) = length (doctors (init_db s))
   \<and> length (rooms (init_db (init_db s))) = length (rooms (init_db s))
   \<and> length (appointments (init_db (init_db s))) = length (appointments (init_db s))
   \<and> length (audit_log (init_db (init_db s))) = length (audit_log (init_db s))
   \<and> patients (init_db empty_db) = seed_patients
   \<and> doctors (init_db empty_db) = seed_doctors
   \<and> rooms (init_db empty_db) = seed_rooms
   \<and> length seed_patients = 2 \<and> length seed_doctors = 2 \<and> length seed_rooms = 3"
proof -
  have twice: "init_db (init_db s) = init_db s"
    unfolding init_db_def seed_patients_def seed_doctors_def seed_rooms_def fold_simps id_apply
    by (rule seed_twice)
  have "patients (init_db empty_db) = seed_patients"
    and "doctors (init_db empty_db) = seed_doctors"
    and "rooms (init_db empty_db) = seed_rooms"
    by code_simp+
  moreover have "length seed_patients = 2" "length seed_doctors = 2" "length seed_rooms = 3"
    by (simp_all add: seed_patients_def seed_doctors_def seed_rooms_def)
  ultimately show ?thesis
    by (simp add: twice)
qed

theorem init_db_idempotent_witness:
  "init_db (init_db (run two_bookings)) = init_db (run two_bookings)
   \<and> length (patients (init_db (init_db empty_db))) = 2
   \<and> length (doctors (init_db (init_db empty_db))) = 2
   \<and> length (rooms (init_db (init_db empty_db))) = 3
   \<and> length (appointments (init_db (init_db (run two_bookings)))) = 2"
proof -
  note a = init_db_idempotent [of "run two_bookings", THEN conjunct1]
  note b = init_db_idempotent [of empty_db, THEN conjunct1]
  have "length (patients (init_db empty_db)) = 2" "length (doctors (init_db empty_db)) = 2"
    "length (rooms (init_db empty_db)) = 3" "length (appointments (run two_bookings)) = 2"
    by code_simp+
  with a b show ?thesis
    by simp
qed

section \<open>The report of appointments per doctor\<close>

lemma report_sorted:
  "sorted (map (\<lambda>(doctor, total). (- total, doctor)) (report_appointments_per_doctor s))"
  unfolding report_appointments_per_doctor_def by (rule sorted_sort_key)

lemma report_mset:
  "mset (report_appointments_per_doctor s) = mset (map (doctor_row s) (doctors s))"
  unfolding report_appointments_per_doctor_def by simp

lemma report_length: "length (report_appointments_per_doctor s) = length (doctors s)"
  unfolding report_appointments_per_doctor_def by simp

lemma report_order:
  assumes "i < j" and "j < length (report_appointments_per_doctor s)"
  shows "snd (report_appointments_per_doctor s ! i) > snd (report_appointments_per_doctor s ! j)
    \<or> (snd (report_appointments_per_doctor s ! i) = snd (report_appointments_per_doctor s ! j)
       \<and> fst (report_appointments_per_doctor s ! i) \<le> fst (report_appointments_per_doctor s ! j))"
proof -
  let ?r = "report_appointments_per_doctor s"
  let ?k = "\<lambda>(doctor :: string, total :: int). (- total, doctor)"
  from assms have "map ?k ?r ! i \<le> map ?k ?r ! j"
    using report_sorted [of s] by (simp add: sorted_iff_nth_mono)
  with assms have "?k (?r ! i) \<le> ?k (?r ! j)"
    by simp
  then show ?thesis
    by (cases "?r ! i"; cases "?r ! j") (auto simp: less_eq_prod_def)
qed

text \<open>
  Claim C7. The report has one row for every doctor, the doctor's name with the
  number of the doctor's appointments that are not cancelled (a doctor with none
  has the row with 0): the rows are, up to their order, the rows so computed from
  the table of doctors. They are in descending order of the count, rows of equal
  count in ascending order of the name (the order of texts is SQLite's default,
  by code points).
\<close>

theorem report_per_doctor:
  "length (report_appointments_per_doctor s) = length (doctors s)
   \<and> mset (report_appointments_per_doctor s) =
       mset (map (\<lambda>d. (d_full_name d,
                        int (length (filter (\<lambda>a. doctor_id a = d_doctor_id d
                                                 \<and> status a \<noteq> ''Cancelled'')
                                       (appointments s)))))
              (doctors s))
   \<and> (\<forall>i j. i < j \<and> j < length (report_appointments_per_doctor s) \<longrightarrow>
         snd (report_appointments_per_doctor s ! i) > snd (report_appointments_per_doctor s ! j)
         \<or> (snd (report_appointments_per_doctor s ! i) = snd (report_appointments_per_doctor s ! j)
            \<and> fst (report_appointments_per_doctor s ! i)
                \<le> fst (report_appointments_per_doctor s ! j)))"
proof -
  have "doctor_row s =
      (\<lambda>d. (d_full_name d,
             int (length (filter (\<lambda>a. doctor_id a = d_doctor_id d \<and> status a \<noteq> ''Cancelled'')
                            (appointments s)))))"
    by (rule ext) (simp add: doctor_row_def eq_commute [of "d_doctor_id _"])
  then show ?thesis
    using report_order [of _ _ s] by (simp add: report_length report_mset)
qed

theorem report_per_doctor_witness:
  "report_appointments_per_doctor (run report_run) =
     [(''Dr. Isuri Ranasinghe'', 1), (''Dr. Nimal Fernando'', 1), (''Dr. Amal Silva'', 0)]
   \<and> length (report_appointments_per_doctor (run report_run)) = length (doctors (run report_run))
   \<and> snd (report_appointments_per_doctor (run report_run) ! 0)
       = snd (report_appointments_per_doctor (run report_run) ! 1)
   \<and> fst (report_appointments_per_doctor (run report_run) ! 0)
       \<le> fst (report_appointments_per_doctor (run report_run) ! 1)
   \<and> snd (report_appointments_per_doctor (run report_run) ! 1)
       > snd (report_appointments_per_doctor (run report_run) ! 2)"
proof -
  note t = report_per_doctor [of "run report_run"]
  have r: "report_appointments_per_doctor (run report_run) =
     [(''Dr. Isuri Ranasinghe'', 1), (''Dr. Nimal Fernando'', 1), (''Dr. Amal Silva'', 0)]"
    by code_simp
  have len: "length (report_appointments_per_doctor (run report_run)) = 3"
    by (simp add: r)
  from t [THEN conjunct2, THEN conjunct2, rule_format, of 0 1] len
  have o1: "snd (report_appointments_per_doctor (run report_run) ! 0)
       = snd (report_appointments_per_doctor (run report_run) ! 1)
     \<and> fst (report_appointments_per_doctor (run report_run) ! 0)
       \<le> fst (report_appointments_per_doctor (run report_run) ! 1)"
    by (simp add: r)
  from t [THEN conjunct2, THEN conjunct2, rule_format, of 1 2] len
  have o2: "snd (report_appointments_per_doctor (run report_run) ! 1)
       > snd (report_appointments_per_doctor (run report_run) ! 2)"
    by (simp add: r)
  from r t [THEN conjunct1] o1 o2 show ?thesis
    by (intro conjI) simp_all
qed

section \<open>Creating a patient\<close>

lemma patient_new_required:
  "strip n = [] \<Longrightarrow> patient_new s n dob g ph e = (Full_name_required, s)"
  by (simp add: patient_new_def)

lemma patient_new_check:
  assumes "strip n \<noteq> []" and "strip g \<notin> {''Male'', ''Female'', ''Other''}"
  shows "patient_new s n dob g ph e = (Could_not_add_patient (CheckFailed ''gender''), s)"
  using assms by (simp add: patient_new_def insert_patient_def gender_check_def)

lemma patient_new_unique:
  assumes "strip n \<noteq> []" and "strip g \<in> {''Male'', ''Female'', ''Other''}"
    and "Some (strip e) \<in> set (map p_email (patients s))"
  shows "patient_new s n dob g ph e =
           (Could_not_add_patient (UniqueFailed ''Patients.email''), s)"
  using assms by (simp add: patient_new_def insert_patient_def gender_check_def email_taken_def)

lemma patient_new_added:
  assumes "strip n \<noteq> []" and "strip g \<in> {''Male'', ''Female'', ''Other''}"
    and "Some (strip e) \<notin> set (map p_email (patients s))"
  shows "patient_new s n dob g ph e =
           (Patient_added,
            s\<lparr>patients := patients s @
                 [\<lparr>p_patient_id = next_rowid (seq_patients s) (map p_patient_id (patients s)),
                   p_full_name = strip n, p_date_of_birth = Some (strip dob),
                   p_gender = Some (strip g), p_phone = Some (strip ph),
                   p_email = Some (strip e)\<rparr>],
              seq_patients := next_rowid (seq_patients s) (map p_patient_id (patients s))\<rparr>)"
  using assms
  by (simp add: patient_new_def insert_patient_def gender_check_def email_taken_def Let_def)

text \<open>
  Claim C8, as amended. \<^verbatim>\<open>patient_new\<close> strips its fields. It is refused with
  the notice that the full name is required, and writes nothing, exactly when the
  stripped full name is empty. With a name, a gender that is one of
  \<^verbatim>\<open>Male\<close>, \<^verbatim>\<open>Female\<close>, \<^verbatim>\<open>Other\<close> and an email that is not empty, it fails
  with the \<^verbatim>\<open>UNIQUE\<close> error, and writes nothing, exactly when a patient present
  has that email; otherwise it adds one patient, with the stripped fields, under
  a key no patient has. With a name and a gender that is not empty and not one
  of the three, it fails with the \<^verbatim>\<open>CHECK\<close> error and writes nothing.
\<close>

theorem patient_new_outcomes:
  "(fst (patient_new s n dob g ph e) = Full_name_required \<longleftrightarrow> strip n = [])
   \<and> (strip n = [] \<longrightarrow> snd (patient_new s n dob g ph e) = s)
   \<and> (strip n \<noteq> [] \<and> strip g \<in> {''Male'', ''Female'', ''Other''} \<and> strip e \<noteq> [] \<longrightarrow>
        (fst (patient_new s n dob g ph e) = Could_not_add_patient (UniqueFailed ''Patients.email'')
           \<longleftrightarrow> Some (strip e) \<in> set (map p_email (patients s)))
        \<and> (Some (strip e) \<in> set (map p_email (patients s)) \<longrightarrow>
             snd (patient_new s n dob g ph e) = s)
        \<and> (Some (strip e) \<notin> set (map p_email (patients s)) \<longrightarrow>
             fst (patient_new s n dob g ph e) = Patient_added
             \<and> (\<exists>pid. pid \<notin> set (map p_patient_id (patients s))
                  \<and> patients (snd (patient_new s n dob g ph e)) = patients s @
                      [\<lparr>p_patient_id = pid, p_full_name = strip n,
                        p_date_of_birth = Some (strip dob), p_gender = Some (strip g),
                        p_phone = Some (strip ph), p_email = Some (strip e)\<rparr>])))
   \<and> (strip n \<noteq> [] \<and> strip g \<noteq> [] \<and> strip g \<notin> {''Male'', ''Female'', ''Other''} \<longrightarrow>
        patient_new s n dob g ph e = (Could_not_add_patient (CheckFailed ''gender''), s))"
proof -
  have a: "fst (patient_new s n dob g ph e) = Full_name_required \<longleftrightarrow> strip n = []"
    by (auto simp: patient_new_def split: prod.splits sum.splits)
  have b: "strip n = [] \<longrightarrow> snd (patient_new s n dob g ph e) = s"
    by (simp add: patient_new_required)
  have c: "strip n \<noteq> [] \<and> strip g \<in> {''Male'', ''Female'', ''Other''} \<and> strip e \<noteq> [] \<longrightarrow>
        (fst (patient_new s n dob g ph e) = Could_not_add_patient (UniqueFailed ''Patients.email'')
           \<longleftrightarrow> Some (strip e) \<in> set (map p_email (patients s)))
        \<and> (Some (strip e) \<in> set (map p_email (patients s)) \<longrightarrow>
             snd (patient_new s n dob g ph e) = s)
        \<and> (Some (strip e) \<notin> set (map p_email (patients s)) \<longrightarrow>
             fst (patient_new s n dob g ph e) = Patient_added
             \<and> (\<exists>pid. pid \<notin> set (map p_patient_id (patients s))
                  \<and> patients (snd (patient_new s n dob g ph e)) = patients s @
                      [\<lparr>p_patient_id = pid, p_full_name = strip n,
                        p_date_of_birth = Some (strip dob), p_gender = Some (strip g),
                        p_phone = Some (strip ph), p_email = Some (strip e)\<rparr>]))"
  proof (intro impI, elim conjE)
    assume n: "strip n \<noteq> []" and g: "strip g \<in> {''Male'', ''Female'', ''Other''}"
    show "(fst (patient_new s n dob g ph e) = Could_not_add_patient (UniqueFailed ''Patients.email'')
           \<longleftrightarrow> Some (strip e) \<in> set (map p_email (patients s)))
        \<and> (Some (strip e) \<in> set (map p_email (patients s)) \<longrightarrow>
             snd (patient_new s n dob g ph e) = s)
        \<and> (Some (strip e) \<notin> set (map p_email (patients s)) \<longrightarrow>
             fst (patient_new s n dob g ph e) = Patient_added
             \<and> (\<exists>pid. pid \<notin> set (map p_patient_id (patients s))
                  \<and> patients (snd (patient_new s n dob g ph e)) = patients s @
                      [\<lparr>p_patient_id = pid, p_full_name = strip n,
                        p_date_of_birth = Some (strip dob), p_gender = Some (strip g),
                        p_phone = Some (strip ph), p_email = Some (strip e)\<rparr>]))"
    proof (cases "Some (strip e) \<in> set (map p_email (patients s))")
      case True
      with patient_new_unique [OF n g True, of dob ph] show ?thesis by simp
    next
      case False
      have fresh: "next_rowid (seq_patients s) (map p_patient_id (patients s))
          \<notin> set (map p_patient_id (patients s))"
        by (rule next_rowid_fresh)
      from False fresh patient_new_added [OF n g False, of dob ph] show ?thesis
        by (intro conjI impI exI [of _ "next_rowid (seq_patients s) (map p_patient_id (patients s))"])
          simp_all
    qed
  qed
  have d: "strip n \<noteq> [] \<and> strip g \<noteq> [] \<and> strip g \<notin> {''Male'', ''Female'', ''Other''} \<longrightarrow>
        patient_new s n dob g ph e = (Could_not_add_patient (CheckFailed ''gender''), s)"
    using patient_new_check [of n g s dob ph e] by blast
  from a b c d show ?thesis
    by (intro conjI)
qed

theorem patient_new_outcomes_witness:
  "strip ''   '' = []
   \<and> fst (patient_new (run two_bookings) ''   '' [] ''Female'' [] ''carol@example.com'')
       = Full_name_required
   \<and> strip '' Carol Dias '' = ''Carol Dias''
   \<and> Some ''carol@example.com'' \<notin> set (map p_email (patients (run two_bookings)))
   \<and> fst (patient_new (run two_bookings) '' Carol Dias '' ''1990-01-01'' ''Female'' ''0700000000''
            ''carol@example.com'') = Patient_added
   \<and> Some ''bob@example.com'' \<in> set (map p_email (patients (run two_bookings)))
   \<and> fst (patient_new (run two_bookings) '' Carol Dias '' ''1990-01-01'' ''Female'' ''0700000000''
            ''bob@example.com'') = Could_not_add_patient (UniqueFailed ''Patients.email'')"
proof -
  have s0: "strip ''   '' = []" by code_simp
  have sn: "strip '' Carol Dias '' = ''Carol Dias''" by code_simp
  have sg: "strip ''Female'' = ''Female''" by code_simp
  have se: "strip ''carol@example.com'' = ''carol@example.com''" by code_simp
  have sb: "strip ''bob@example.com'' = ''bob@example.com''" by code_simp
  have fresh: "Some ''carol@example.com'' \<notin> set (map p_email (patients (run two_bookings)))"
    by code_simp
  have taken: "Some ''bob@example.com'' \<in> set (map p_email (patients (run two_bookings)))"
    by code_simp
  note t0 = patient_new_outcomes [of "run two_bookings" "''   ''" "[]" "''Female''" "[]"
      "''carol@example.com''", THEN conjunct1]
  note t1 = patient_new_outcomes [of "run two_bookings" "'' Carol Dias ''" "''1990-01-01''"
      "''Female''" "''0700000000''" "''carol@example.com''",
      THEN conjunct2, THEN conjunct2, THEN conjunct1]
  note t2 = patient_new_outcomes [of "run two_bookings" "'' Carol Dias ''" "''1990-01-01''"
      "''Female''" "''0700000000''" "''bob@example.com''",
      THEN conjunct2, THEN conjunct2, THEN conjunct1]
  from t0 s0 have c0: "fst (patient_new (run two_bookings) ''   '' [] ''Female'' []
      ''carol@example.com'') = Full_name_required"
    by simp
  from t1 fresh have c1: "fst (patient_new (run two_bookings) '' Carol Dias '' ''1990-01-01''
      ''Female'' ''0700000000'' ''carol@example.com'') = Patient_added"
    by (simp add: sn sg se)
  from t2 taken have c2: "fst (patient_new (run two_bookings) '' Carol Dias '' ''1990-01-01''
      ''Female'' ''0700000000'' ''bob@example.com'')
        = Could_not_add_patient (UniqueFailed ''Patients.email'')"
    by (simp add: sn sg sb)
  from s0 c0 sn fresh c1 taken c2 show ?thesis
    by (intro conjI)
qed

text \<open>
  The claim as stated fails: the name is not empty and no patient has the email,
  and the patient is not added, since \<^verbatim>\<open>X\<close> is no gender of the \<^verbatim>\<open>CHECK\<close>.
\<close>

theorem unknown_gender_rejected:
  "strip ''Carol Dias'' \<noteq> []
   \<and> strip ''carol@example.com'' \<noteq> []
   \<and> Some (strip ''carol@example.com'') \<notin> set (map p_email (patients (run two_bookings)))
   \<and> patient_new (run two_bookings) ''Carol Dias'' ''1990-01-01'' ''X'' ''0700000000''
        ''carol@example.com'' = (Could_not_add_patient (CheckFailed ''gender''), run two_bookings)"
  by code_simp

text \<open>
  A field left blank reaches the statement as the empty text, not as \<^verbatim>\<open>NULL\<close>
  (the handler \<^verbatim>\<open>book\<close> turns its blank optional fields into \<^verbatim>\<open>None\<close>;
  \<^verbatim>\<open>patient_new\<close> does not): a blank gender fails the \<^verbatim>\<open>CHECK\<close>, and a second
  patient with a blank email fails the \<^verbatim>\<open>UNIQUE\<close>.
\<close>

lemma blank_gender_rejected:
  "patient_new (run two_bookings) ''Carol Dias'' [] [] [] ''carol@example.com''
     = (Could_not_add_patient (CheckFailed ''gender''), run two_bookings)"
  by code_simp

lemma second_blank_email_rejected:
  "fst (patient_new (run two_bookings) ''Carol Dias'' [] ''Female'' [] []) = Patient_added
   \<and> fst (patient_new (snd (patient_new (run two_bookings) ''Carol Dias'' [] ''Female'' [] []))
            ''Dinesh Perera'' [] ''Male'' [] [])
       = Could_not_add_patient (UniqueFailed ''Patients.email'')"
  by code_simp

end
